theory Spec2Isabelle
  imports Main "HOL-Library.Word"
begin

section \<open>The asynchronous call execution core of the VM host\<close>

text \<open>
  A shallow embedding of \<^verbatim>\<open>arwen/host/execution_async_context.go\<close>.
  Go's \<^verbatim>\<open>[]byte\<close> and \<^verbatim>\<open>string\<close> are both byte sequences and are both
  modelled as \<^typ>\<open>string\<close>; \<^verbatim>\<open>uint64\<close> is \<^typ>\<open>64 word\<close>. A Go function
  returning \<^verbatim>\<open>error\<close> returns \<^typ>\<open>'a option\<close> over the error type below
  (\<open>None\<close> is \<^verbatim>\<open>nil\<close>). The calls of a group and the groups of a context are
  held by pointer in Go and mutated in place; the model passes them in and returns them
  updated, also when the function returns an error.
\<close>

subsection \<open>Data model\<close>

type_synonym bytes = string
type_synonym uint64 = "64 word"

datatype error = ErrNotEnoughGas | ErrCollaborator string

text \<open>A nil pointer dereference aborts the Go function with a run-time panic.\<close>

datatype go_panic = NilPointerDereference

datatype AsyncCallStatus = Pending | ResolvedOk | ResolvedFailed

datatype AsyncCallExecutionMode = SyncExecution | AsyncBuiltinFunc | AsyncUnknown

datatype CallType = DirectCall | AsynchronousCall | AsynchronousCallBack

record AsyncCall =
  Destination :: bytes
  Data :: bytes
  ValueBytes :: bytes
  ProvidedGas :: uint64
  GasLimit :: uint64
  GasLocked :: uint64
  CallbackName :: string
  Status :: AsyncCallStatus

record AsyncCallGroup =
  Identifier :: string
  Callback :: string
  AsyncCalls :: "AsyncCall list"

record AsyncContext =
  CallerAddr :: bytes
  AsyncCallGroups :: "AsyncCallGroup list"

text \<open>\<^verbatim>\<open>vmcommon.ReturnCode\<close> is a Go \<^verbatim>\<open>int\<close>; \<^verbatim>\<open>vmcommon.Ok\<close> is 0.\<close>

type_synonym ReturnCode = int

definition Ok :: ReturnCode where
  "Ok = 0"

record VMOutput =
  ReturnCode :: ReturnCode
  ReturnData :: "bytes list"
  ReturnMessage :: string
  GasRemaining :: uint64

record ContractCallInput =
  CallerAddr_in :: bytes
  Arguments :: "bytes list"
  CallValue :: nat
  CallType_in :: CallType
  GasPrice_in :: uint64
  GasProvided :: uint64
  CurrentTxHash :: bytes
  OriginalTxHash :: bytes
  PrevTxHash :: bytes
  RecipientAddr :: bytes
  Function :: string

text \<open>The arguments of \<^verbatim>\<open>output.Transfer\<close>, in the order of the call.\<close>

record TransferArgs =
  tr_destination :: bytes
  tr_sender :: bytes
  tr_gasLimit :: uint64
  tr_gasLocked :: uint64
  tr_value :: nat
  tr_input :: bytes
  tr_callType :: CallType

subsection \<open>The host's collaborators\<close>

text \<open>
  The core reaches metering, output, runtime, storage, blockchain, the argument parser and
  the bytecode executor through interfaces. Their state is the type parameter \<open>'w\<close>;
  their operations and the constants of the enclosing frame are the fields of the
  environment. The host state pairs the collaborators' state with the log of the calls
  the core itself has made on them, so that a statement such as "one storage write has
  occurred" is a statement about this log. The bytecode executor acts on the
  collaborators' state only: the context being driven is owned by the current frame
  (section 3 of the specification), and a nested execution works on a context of its own.
\<close>

datatype event =
    EvExecuteOnDestContext ContractCallInput
  | EvTransfer TransferArgs
  | EvUseGas uint64
  | EvFailExecution error
  | EvSetStorage bytes bytes
  | EvGroupCallback AsyncCallGroup
  | EvSetGasProvided uint64
  | EvSetReturnMessage string
  | EvFinish bytes

record 'w host =
  world :: 'w
  trace :: "event list"

record 'w env =
  ParseData :: "bytes \<Rightarrow> error + (string \<times> bytes list)"
  GetShardOfAddress :: "bytes \<Rightarrow> nat"
  IsBuiltinFunctionName :: "string \<Rightarrow> bool"
  AsyncCallStep :: uint64
  DataCopyPerByte :: uint64
  GetSCAddress :: bytes
  GasPrice :: uint64
  GetCurrentTxHash :: bytes
  GetOriginalTxHash :: bytes
  GetPrevTxHash :: bytes
  AsyncDataPrefix :: bytes
  LegacyAsyncCallGroupID :: string
  GasLeft :: "'w \<Rightarrow> uint64"
  UseGas :: "uint64 \<Rightarrow> 'w \<Rightarrow> 'w"
  FailExecution :: "error \<Rightarrow> 'w \<Rightarrow> 'w"
  Transfer :: "TransferArgs \<Rightarrow> 'w \<Rightarrow> error option \<times> 'w"
  ExecuteOnDestContext :: "ContractCallInput \<Rightarrow> 'w \<Rightarrow> (VMOutput option \<times> error option) \<times> 'w"
  SetStorage :: "bytes \<Rightarrow> bytes \<Rightarrow> 'w \<Rightarrow> error option \<times> 'w"
  Marshal :: "AsyncContext \<Rightarrow> error + bytes"
  CreateVMOutputInCaseOfError :: "error \<Rightarrow> 'w \<Rightarrow> VMOutput"
  SetReturnMessage :: "string \<Rightarrow> 'w \<Rightarrow> 'w"
  Finish :: "bytes \<Rightarrow> 'w \<Rightarrow> 'w"
  SetGasProvided :: "uint64 \<Rightarrow> 'w \<Rightarrow> 'w"
  ReturnCodeString :: "ReturnCode \<Rightarrow> string"

definition emit :: "event \<Rightarrow> 'w \<Rightarrow> 'w host \<Rightarrow> 'w host" where
  "emit ev w h = \<lparr>world = w, trace = trace h @ [ev]\<rparr>"

subsection \<open>Parts of the repository outside the source files\<close>

text \<open>
  Modelled from the spec: \<^verbatim>\<open>math.AddUint64\<close> is not among the source files. Section 4.2,
  step 1: "Overflow in the accumulation is itself NotEnoughGas."
\<close>

definition AddUint64 :: "uint64 \<Rightarrow> uint64 \<Rightarrow> error + uint64" where
  "AddUint64 a b = (if unat a + unat b < 2 ^ 64 then Inr (a + b) else Inl ErrNotEnoughGas)"

subsection \<open>Gas allocator\<close>

text \<open>
  The first pair of nested loops of \<^verbatim>\<open>setupAsyncCallsGas\<close>. The result carries the
  error, the two counters and the calls as the loop has left them: on an early return
  the calls already visited keep the gas limit written to them.
\<close>

fun sumCalls ::
  "uint64 \<Rightarrow> uint64 \<Rightarrow> uint64 \<Rightarrow> AsyncCall list \<Rightarrow> error option \<times> uint64 \<times> uint64 \<times> AsyncCall list"
where
  "sumCalls gasLeft gasNeeded zeros [] = (None, gasNeeded, zeros, [])"
| "sumCalls gasLeft gasNeeded zeros (c # cs) =
     (case AddUint64 gasNeeded (ProvidedGas c) of
        Inl err \<Rightarrow> (Some err, gasNeeded, zeros, c # cs)
      | Inr gasNeeded' \<Rightarrow>
          if gasNeeded' > gasLeft then (Some ErrNotEnoughGas, gasNeeded', zeros, c # cs)
          else if ProvidedGas c = 0 then
            (case sumCalls gasLeft gasNeeded' (zeros + 1) cs of
               (e, n, z, cs') \<Rightarrow> (e, n, z, c # cs'))
          else
            (case sumCalls gasLeft gasNeeded' zeros cs of
               (e, n, z, cs') \<Rightarrow> (e, n, z, c\<lparr>GasLimit := ProvidedGas c\<rparr> # cs')))"

fun sumGroups ::
  "uint64 \<Rightarrow> uint64 \<Rightarrow> uint64 \<Rightarrow> AsyncCallGroup list \<Rightarrow>
     error option \<times> uint64 \<times> uint64 \<times> AsyncCallGroup list"
where
  "sumGroups gasLeft gasNeeded zeros [] = (None, gasNeeded, zeros, [])"
| "sumGroups gasLeft gasNeeded zeros (g # gs) =
     (case sumCalls gasLeft gasNeeded zeros (AsyncCalls g) of
        (Some err, n, z, cs') \<Rightarrow> (Some err, n, z, g\<lparr>AsyncCalls := cs'\<rparr> # gs)
      | (None, n, z, cs') \<Rightarrow>
          (case sumGroups gasLeft n z gs of
             (e, n', z', gs') \<Rightarrow> (e, n', z', g\<lparr>AsyncCalls := cs'\<rparr> # gs')))"

text \<open>The second pair of nested loops: every zero-gas call receives the share.\<close>

definition shareCall :: "uint64 \<Rightarrow> AsyncCall \<Rightarrow> AsyncCall" where
  "shareCall gasShare c = (if ProvidedGas c = 0 then c\<lparr>GasLimit := gasShare\<rparr> else c)"

definition shareGroups :: "uint64 \<Rightarrow> AsyncCallGroup list \<Rightarrow> AsyncCallGroup list" where
  "shareGroups gasShare gs = map (\<lambda>g. g\<lparr>AsyncCalls := map (shareCall gasShare) (AsyncCalls g)\<rparr>) gs"

definition setupAsyncCallsGas :: "'w env \<Rightarrow> 'w host \<Rightarrow> AsyncContext \<Rightarrow> error option \<times> AsyncContext" where
  "setupAsyncCallsGas env h asyncContext =
     (let gasLeft = GasLeft env (world h) in
      case sumGroups gasLeft 0 0 (AsyncCallGroups asyncContext) of
        (Some err, gasNeeded, callsWithZeroGas, gs) \<Rightarrow>
          (Some err, asyncContext\<lparr>AsyncCallGroups := gs\<rparr>)
      | (None, gasNeeded, callsWithZeroGas, gs) \<Rightarrow>
          if callsWithZeroGas = 0 then (None, asyncContext\<lparr>AsyncCallGroups := gs\<rparr>)
          else if gasLeft \<le> gasNeeded then (Some ErrNotEnoughGas, asyncContext\<lparr>AsyncCallGroups := gs\<rparr>)
          else
            (let gasShare = (gasLeft - gasNeeded) div callsWithZeroGas in
             (None, asyncContext\<lparr>AsyncCallGroups := shareGroups gasShare gs\<rparr>)))"

subsection \<open>Parts of the \<^verbatim>\<open>arwen\<close> package outside the source files\<close>

text \<open>
  Modelled from the spec: \<^verbatim>\<open>AsyncCall.UpdateStatus\<close> is not among the source files.
  Section 4.4: "set status = ResolvedOk or ResolvedFailed from return code".
\<close>

definition UpdateStatus :: "ReturnCode \<Rightarrow> AsyncCall \<Rightarrow> AsyncCall" where
  "UpdateStatus rc c = c\<lparr>Status := (if rc = Ok then ResolvedOk else ResolvedFailed)\<rparr>"

text \<open>
  Modelled from the spec: \<^verbatim>\<open>AsyncCall.GetCallbackName\<close> is not among the source files.
  Section 3 gives a call one "callback function name (string, possibly empty)".
\<close>

definition GetCallbackName :: "AsyncCall \<Rightarrow> string" where
  "GetCallbackName c = CallbackName c"

text \<open>
  Modelled from the spec: \<^verbatim>\<open>AsyncCallGroup.IsCompleted\<close> is not among the source files.
  Section 3: "group.IsCompleted() iff every call has status \<noteq> Pending".
\<close>

definition group_IsCompleted :: "AsyncCallGroup \<Rightarrow> bool" where
  "group_IsCompleted g = list_all (\<lambda>c. Status c \<noteq> Pending) (AsyncCalls g)"

text \<open>
  Modelled from the spec: \<^verbatim>\<open>AsyncCallGroup.DeleteCompletedAsyncCalls\<close> is not among the
  source files. Section 4.5: "then remove completed calls from the group"; a call is
  completed when its status is not Pending (section 3).
\<close>

definition DeleteCompletedAsyncCalls :: "AsyncCallGroup \<Rightarrow> AsyncCallGroup" where
  "DeleteCompletedAsyncCalls g = g\<lparr>AsyncCalls := filter (\<lambda>c. Status c = Pending) (AsyncCalls g)\<rparr>"

text \<open>
  Modelled from the spec: \<^verbatim>\<open>AsyncContext.IsCompleted\<close> is not among the source files.
  Section 4.6, step 1: "If the context is already completed (no groups), return success."
\<close>

definition context_IsCompleted :: "AsyncContext \<Rightarrow> bool" where
  "context_IsCompleted ctx = (AsyncCallGroups ctx = [])"

text \<open>
  Modelled from the spec: \<^verbatim>\<open>AsyncContext.DeleteAsyncCallGroupByID\<close> is not among the
  source files. Section 4.6, step 6: "Unconditionally delete the group with identifier
  LegacyAsyncCallGroupID." The first group with the identifier is removed; by the
  invariant of section 3 ("no two groups share an identifier") there is no other.
\<close>

fun deleteGroupByID :: "string \<Rightarrow> AsyncCallGroup list \<Rightarrow> AsyncCallGroup list" where
  "deleteGroupByID gid [] = []"
| "deleteGroupByID gid (g # gs) = (if Identifier g = gid then gs else g # deleteGroupByID gid gs)"

definition DeleteAsyncCallGroupByID :: "string \<Rightarrow> AsyncContext \<Rightarrow> AsyncContext" where
  "DeleteAsyncCallGroupByID gid ctx = ctx\<lparr>AsyncCallGroups := deleteGroupByID gid (AsyncCallGroups ctx)\<rparr>"

text \<open>
  Modelled from the spec: \<^verbatim>\<open>arwen.CustomStorageKey\<close> is not among the source files.
  Section 4.8: the storage key is the prefix followed by the hash, "byte concatenation".
\<close>

definition CustomStorageKey :: "bytes \<Rightarrow> bytes \<Rightarrow> bytes" where
  "CustomStorageKey keyType associatedKey = keyType @ associatedKey"

subsection \<open>Big integers of the Go library\<close>

text \<open>
  \<^verbatim>\<open>big.Int.Bytes\<close> is the big-endian representation of the absolute value without
  leading zero bytes (empty for 0); \<^verbatim>\<open>big.Int.SetBytes\<close> reads a big-endian unsigned
  integer.
\<close>

fun be_bytes :: "nat \<Rightarrow> bytes" where
  "be_bytes n = (if n = 0 then [] else be_bytes (n div 256) @ [char_of (n mod 256)])"

declare be_bytes.simps [simp del]

definition returnCodeBytes :: "ReturnCode \<Rightarrow> bytes" where
  "returnCodeBytes rc = be_bytes (nat \<bar>rc\<bar>)"

definition be_nat :: "bytes \<Rightarrow> nat" where
  "be_nat bs = foldl (\<lambda>acc b. acc * 256 + of_char b) 0 bs"

subsection \<open>Execution-mode classifier\<close>

definition determineExecutionMode ::
  "'w env \<Rightarrow> bytes \<Rightarrow> bytes \<Rightarrow> AsyncCallExecutionMode \<times> error option" where
  "determineExecutionMode env destination data =
     (case ParseData env data of
        Inl err \<Rightarrow> (AsyncUnknown, Some err)
      | Inr (functionName, arguments) \<Rightarrow>
          (let shardOfSC = GetShardOfAddress env (GetSCAddress env);
               shardOfDest = GetShardOfAddress env destination;
               sameShard = (shardOfSC = shardOfDest)
           in if sameShard then (SyncExecution, None)
              else if IsBuiltinFunctionName env functionName then (AsyncBuiltinFunc, None)
              else (AsyncUnknown, None)))"

definition determineAsyncCallExecutionMode ::
  "'w env \<Rightarrow> AsyncCall \<Rightarrow> AsyncCallExecutionMode \<times> error option" where
  "determineAsyncCallExecutionMode env asyncCall =
     determineExecutionMode env (Destination asyncCall) (Data asyncCall)"

subsection \<open>Call input builders\<close>

definition createSyncCallInput :: "'w env \<Rightarrow> AsyncCall \<Rightarrow> error + ContractCallInput" where
  "createSyncCallInput env asyncCall =
     (case ParseData env (Data asyncCall) of
        Inl err \<Rightarrow> Inl err
      | Inr (function, arguments) \<Rightarrow>
          (let gasLimit = GasLimit asyncCall;
               gasToUse = AsyncCallStep env
           in if gasLimit \<le> gasToUse then Inl ErrNotEnoughGas
              else Inr \<lparr>CallerAddr_in = GetSCAddress env,
                        Arguments = arguments,
                        CallValue = be_nat (ValueBytes asyncCall),
                        CallType_in = AsynchronousCall,
                        GasPrice_in = GasPrice env,
                        GasProvided = gasLimit - gasToUse,
                        CurrentTxHash = GetCurrentTxHash env,
                        OriginalTxHash = GetOriginalTxHash env,
                        PrevTxHash = GetPrevTxHash env,
                        RecipientAddr = Destination asyncCall,
                        Function = function\<rparr>))"

text \<open>
  The lengths are those of byte slices held in memory, so the Go \<^verbatim>\<open>int\<close> that adds
  them up is modelled as \<^typ>\<open>nat\<close>.
\<close>

definition computeDataLengthFromArguments :: "string \<Rightarrow> bytes list \<Rightarrow> nat" where
  "computeDataLengthFromArguments function arguments =
     (let numSeparators = length arguments;
          dataLength = length function + numSeparators
      in foldl (\<lambda>dataLength element. dataLength + length element) dataLength arguments)"

definition callbackArguments :: "VMOutput \<Rightarrow> error option \<Rightarrow> bytes list" where
  "callbackArguments vmOutput destinationErr =
     (case destinationErr of
        None \<Rightarrow> [returnCodeBytes (ReturnCode vmOutput)] @ ReturnData vmOutput
      | Some e \<Rightarrow> [returnCodeBytes (ReturnCode vmOutput)] @ [ReturnMessage vmOutput])"

definition callbackGasToUse :: "'w env \<Rightarrow> nat \<Rightarrow> uint64" where
  "callbackGasToUse env dataLength = AsyncCallStep env + DataCopyPerByte env * of_nat dataLength"

definition createSyncCallbackInput ::
  "'w env \<Rightarrow> AsyncCall \<Rightarrow> VMOutput \<Rightarrow> error option \<Rightarrow> error + ContractCallInput" where
  "createSyncCallbackInput env asyncCall vmOutput destinationErr =
     (let arguments = callbackArguments vmOutput destinationErr;
          callbackFunction = GetCallbackName asyncCall;
          gasLimit = GasRemaining vmOutput + GasLocked asyncCall;
          dataLength = computeDataLengthFromArguments callbackFunction arguments;
          gasToUse = callbackGasToUse env dataLength
      in if gasLimit \<le> gasToUse then Inl ErrNotEnoughGas
         else Inr \<lparr>CallerAddr_in = Destination asyncCall,
                   Arguments = arguments,
                   CallValue = 0,
                   CallType_in = AsynchronousCallBack,
                   GasPrice_in = GasPrice env,
                   GasProvided = gasLimit - gasToUse,
                   CurrentTxHash = GetCurrentTxHash env,
                   OriginalTxHash = GetOriginalTxHash env,
                   PrevTxHash = GetPrevTxHash env,
                   RecipientAddr = GetSCAddress env,
                   Function = callbackFunction\<rparr>)"

subsection \<open>Per-call executor\<close>

text \<open>A call of \<^verbatim>\<open>host.ExecuteOnDestContext\<close>: the bytecode executor runs on the
  collaborators' state, and the call is logged.\<close>

definition callExecuteOnDestContext ::
  "'w env \<Rightarrow> ContractCallInput \<Rightarrow> 'w host \<Rightarrow> (VMOutput option \<times> error option) \<times> 'w host" where
  "callExecuteOnDestContext env input h =
     (case ExecuteOnDestContext env input (world h) of
        (r, w) \<Rightarrow> (r, emit (EvExecuteOnDestContext input) w h))"

definition executeSyncCall ::
  "'w env \<Rightarrow> AsyncCall \<Rightarrow> 'w host \<Rightarrow> (VMOutput option \<times> error option) \<times> 'w host" where
  "executeSyncCall env asyncCall h =
     (case createSyncCallInput env asyncCall of
        Inl err \<Rightarrow> ((None, Some err), h)
      | Inr destinationCallInput \<Rightarrow> callExecuteOnDestContext env destinationCallInput h)"

definition executeSyncCallback ::
  "'w env \<Rightarrow> AsyncCall \<Rightarrow> VMOutput \<Rightarrow> error option \<Rightarrow> 'w host \<Rightarrow>
     (VMOutput option \<times> error option) \<times> 'w host" where
  "executeSyncCallback env asyncCall vmOutput err h =
     (case createSyncCallbackInput env asyncCall vmOutput err of
        Inl err' \<Rightarrow> ((None, Some err'), h)
      | Inr callbackInput \<Rightarrow> callExecuteOnDestContext env callbackInput h)"

definition finishSyncExecution :: "'w env \<Rightarrow> VMOutput option \<Rightarrow> error option \<Rightarrow> 'w host \<Rightarrow> 'w host" where
  "finishSyncExecution env vmOutput err h =
     (case err of
        None \<Rightarrow> h
      | Some e \<Rightarrow>
          (let h1 = emit (EvSetGasProvided 0) (SetGasProvided env 0 (world h)) h;
               vmOutput' = (case vmOutput of
                              None \<Rightarrow> CreateVMOutputInCaseOfError env e (world h1)
                            | Some v \<Rightarrow> v);
               h2 = emit (EvSetReturnMessage (ReturnMessage vmOutput'))
                      (SetReturnMessage env (ReturnMessage vmOutput') (world h1)) h1;
               h3 = emit (EvFinish (ReturnCodeString env (ReturnCode vmOutput')))
                      (Finish env (ReturnCodeString env (ReturnCode vmOutput')) (world h2)) h2
           in emit (EvFinish (GetCurrentTxHash env)) (Finish env (GetCurrentTxHash env) (world h3)) h3))"

definition sendAsyncCallCrossShard :: "'w env \<Rightarrow> AsyncCall \<Rightarrow> 'w host \<Rightarrow> error option \<times> 'w host" where
  "sendAsyncCallCrossShard env asyncCall h =
     (let args = \<lparr>tr_destination = Destination asyncCall,
                  tr_sender = GetSCAddress env,
                  tr_gasLimit = GasLimit asyncCall,
                  tr_gasLocked = GasLocked asyncCall,
                  tr_value = be_nat (ValueBytes asyncCall),
                  tr_input = Data asyncCall,
                  tr_callType = AsynchronousCall\<rparr>
      in case Transfer env args (world h) of
           (None, w) \<Rightarrow> (None, emit (EvTransfer args) w h)
         | (Some err, w) \<Rightarrow>
             (let h1 = emit (EvTransfer args) w h;
                  gas = GasLeft env (world h1);
                  h2 = emit (EvUseGas gas) (UseGas env gas (world h1)) h1;
                  h3 = emit (EvFailExecution err) (FailExecution env err (world h2)) h2
              in (Some err, h3)))"

text \<open>
  The result of \<^verbatim>\<open>executeAsyncCall\<close> is a panic or the returned error, the host state,
  and the call as the function has left it. Reading \<^verbatim>\<open>vmOutput.ReturnCode\<close> of a nil
  \<^verbatim>\<open>vmOutput\<close> is the panic.
\<close>

type_synonym 'a outcome = "(go_panic + error option) \<times> 'a"

definition executeAsyncCall ::
  "'w env \<Rightarrow> AsyncCall \<Rightarrow> bool \<Rightarrow> 'w host \<Rightarrow> ('w host \<times> AsyncCall) outcome" where
  "executeAsyncCall env asyncCall syncExecutionOnly h =
     (case determineAsyncCallExecutionMode env asyncCall of
        (execMode, Some err) \<Rightarrow> (Inr (Some err), h, asyncCall)
      | (execMode, None) \<Rightarrow>
          if execMode = SyncExecution then
            (case executeSyncCall env asyncCall h of
               ((None, err), h1) \<Rightarrow> (Inl NilPointerDereference, h1, asyncCall)
             | ((Some vmOutput, err), h1) \<Rightarrow>
                 (let asyncCall' = UpdateStatus (ReturnCode vmOutput) asyncCall
                  in case executeSyncCallback env asyncCall' vmOutput err h1 of
                       ((callbackVMOutput, callbackErr), h2) \<Rightarrow>
                         (Inr None, finishSyncExecution env callbackVMOutput callbackErr h2, asyncCall')))
          else if syncExecutionOnly then (Inr None, h, asyncCall)
          else if execMode = AsyncBuiltinFunc then
            (case executeSyncCall env asyncCall h of
               ((vmOutput, Some err), h1) \<Rightarrow> (Inr (Some err), h1, asyncCall)
             | ((None, None), h1) \<Rightarrow> (Inl NilPointerDereference, h1, asyncCall)
             | ((Some vmOutput, None), h1) \<Rightarrow>
                 if ReturnCode vmOutput \<noteq> Ok then
                   (let asyncCall' = UpdateStatus (ReturnCode vmOutput) asyncCall
                    in case executeSyncCallback env asyncCall' vmOutput None h1 of
                         ((callbackVMOutput, callbackErr), h2) \<Rightarrow>
                           (Inr None, finishSyncExecution env callbackVMOutput callbackErr h2, asyncCall'))
                 else (Inr None, h1, asyncCall))
          else if execMode = AsyncUnknown then
            (case sendAsyncCallCrossShard env asyncCall h of
               (e, h1) \<Rightarrow> (Inr e, h1, asyncCall))
          else (Inr None, h, asyncCall))"

subsection \<open>Group executor\<close>

text \<open>The loop over the calls of a group stops at the first call that does not return nil.\<close>

fun executeAsyncCalls ::
  "'w env \<Rightarrow> bool \<Rightarrow> AsyncCall list \<Rightarrow> 'w host \<Rightarrow> ('w host \<times> AsyncCall list) outcome" where
  "executeAsyncCalls env syncExecutionOnly [] h = (Inr None, h, [])"
| "executeAsyncCalls env syncExecutionOnly (c # cs) h =
     (case executeAsyncCall env c syncExecutionOnly h of
        (Inr None, h1, c') \<Rightarrow>
          (case executeAsyncCalls env syncExecutionOnly cs h1 of
             (r, h2, cs') \<Rightarrow> (r, h2, c' # cs'))
      | (r, h1, c') \<Rightarrow> (r, h1, c' # cs))"

text \<open>The reserved hook does nothing and returns nil; its invocation is logged.\<close>

definition executeAsyncCallGroupCallback :: "AsyncCallGroup \<Rightarrow> 'w host \<Rightarrow> error option \<times> 'w host" where
  "executeAsyncCallGroupCallback grp h = (None, emit (EvGroupCallback grp) (world h) h)"

definition executeAsyncCallGroup ::
  "'w env \<Rightarrow> AsyncCallGroup \<Rightarrow> bool \<Rightarrow> 'w host \<Rightarrow> ('w host \<times> AsyncCallGroup) outcome" where
  "executeAsyncCallGroup env grp syncExecutionOnly h =
     (case executeAsyncCalls env syncExecutionOnly (AsyncCalls grp) h of
        (Inr None, h1, cs) \<Rightarrow>
          (let grp' = DeleteCompletedAsyncCalls (grp\<lparr>AsyncCalls := cs\<rparr>)
           in if group_IsCompleted grp' then
                (case executeAsyncCallGroupCallback grp' h1 of
                   (e, h2) \<Rightarrow> (Inr e, h2, grp'))
              else (Inr None, h1, grp'))
      | (r, h1, cs) \<Rightarrow> (r, h1, grp\<lparr>AsyncCalls := cs\<rparr>))"

subsection \<open>Context driver and persistence\<close>

definition saveAsyncContext :: "'w env \<Rightarrow> AsyncContext \<Rightarrow> 'w host \<Rightarrow> error option \<times> 'w host" where
  "saveAsyncContext env asyncContext h =
     (if length (AsyncCallGroups asyncContext) = 0 then (None, h)
      else
        (let asyncCallStorageKey = CustomStorageKey (AsyncDataPrefix env) (GetPrevTxHash env)
         in case Marshal env asyncContext of
              Inl err \<Rightarrow> (Some err, h)
            | Inr data \<Rightarrow>
                (case SetStorage env asyncCallStorageKey data (world h) of
                   (err, w) \<Rightarrow> (err, emit (EvSetStorage asyncCallStorageKey data) w h))))"

text \<open>
  Modelled from the spec: \<^verbatim>\<open>AsyncContext.DeleteAsyncCallGroup\<close>, which the first sweep
  calls with the index of a completed group, is not among the source files. Section 4.6,
  step 3: "For each group in order: run the Group Executor in syncOnly = true mode; if the
  group is now completed, delete it from the context." The sweep therefore keeps, in
  order, the groups that are not completed after their execution.
\<close>

fun sweepSync ::
  "'w env \<Rightarrow> AsyncCallGroup list \<Rightarrow> 'w host \<Rightarrow> ('w host \<times> AsyncCallGroup list) outcome" where
  "sweepSync env [] h = (Inr None, h, [])"
| "sweepSync env (g # gs) h =
     (case executeAsyncCallGroup env g True h of
        (Inr None, h1, g') \<Rightarrow>
          (case sweepSync env gs h1 of
             (r, h2, gs') \<Rightarrow> (r, h2, if group_IsCompleted g' then gs' else g' # gs'))
      | (r, h1, g') \<Rightarrow> (r, h1, g' # gs))"

fun sweepAsync ::
  "'w env \<Rightarrow> AsyncCallGroup list \<Rightarrow> 'w host \<Rightarrow> ('w host \<times> AsyncCallGroup list) outcome" where
  "sweepAsync env [] h = (Inr None, h, [])"
| "sweepAsync env (g # gs) h =
     (case executeAsyncCallGroup env g False h of
        (Inr None, h1, g') \<Rightarrow>
          (case sweepAsync env gs h1 of
             (r, h2, gs') \<Rightarrow> (r, h2, g' # gs'))
      | (r, h1, g') \<Rightarrow> (r, h1, g' # gs))"

definition executeCurrentAsyncContext ::
  "'w env \<Rightarrow> AsyncContext \<Rightarrow> 'w host \<Rightarrow> ('w host \<times> AsyncContext) outcome" where
  "executeCurrentAsyncContext env asyncContext h =
     (if context_IsCompleted asyncContext then (Inr None, h, asyncContext)
      else
        (case setupAsyncCallsGas env h asyncContext of
           (Some err, ctx1) \<Rightarrow> (Inr (Some err), h, ctx1)
         | (None, ctx1) \<Rightarrow>
             (case sweepSync env (AsyncCallGroups ctx1) h of
                (Inr None, h1, gs1) \<Rightarrow>
                  (case setupAsyncCallsGas env h1 (ctx1\<lparr>AsyncCallGroups := gs1\<rparr>) of
                     (Some err, ctx2) \<Rightarrow> (Inr (Some err), h1, ctx2)
                   | (None, ctx2) \<Rightarrow>
                       (case sweepAsync env (AsyncCallGroups ctx2) h1 of
                          (Inr None, h2, gs2) \<Rightarrow>
                            (let ctx3 = DeleteAsyncCallGroupByID (LegacyAsyncCallGroupID env)
                                          (ctx2\<lparr>AsyncCallGroups := gs2\<rparr>)
                             in case saveAsyncContext env ctx3 h2 of
                                  (e, h3) \<Rightarrow> (Inr e, h3, ctx3))
                        | (r, h2, gs2) \<Rightarrow> (r, h2, ctx2\<lparr>AsyncCallGroups := gs2\<rparr>)))
              | (r, h1, gs1) \<Rightarrow> (r, h1, ctx1\<lparr>AsyncCallGroups := gs1\<rparr>))))"


section \<open>The statements of the specification\<close>

subsection \<open>What the gas allocator is specified to compute\<close>

text \<open>
  The calls of all groups in iteration order, the sum of their provided gas as a natural
  number (so that it cannot wrap around), and the number of calls that provide no gas.
\<close>

definition allCalls :: "AsyncCallGroup list \<Rightarrow> AsyncCall list" where
  "allCalls gs = concat (map AsyncCalls gs)"

definition providedSum :: "AsyncCall list \<Rightarrow> nat" where
  "providedSum cs = sum_list (map (\<lambda>c. unat (ProvidedGas c)) cs)"

definition zeroCount :: "AsyncCall list \<Rightarrow> nat" where
  "zeroCount cs = length (filter (\<lambda>c. ProvidedGas c = 0) cs)"

definition gasNeededOf :: "AsyncContext \<Rightarrow> nat" where
  "gasNeededOf ctx = providedSum (allCalls (AsyncCallGroups ctx))"

definition zeroCountOf :: "AsyncContext \<Rightarrow> nat" where
  "zeroCountOf ctx = zeroCount (allCalls (AsyncCallGroups ctx))"

text \<open>Section 4.2, step 5: the share is \<open>(gasLeft - gasNeeded) / zeroCount\<close>, rounded down.\<close>

definition gasShareOf :: "uint64 \<Rightarrow> AsyncContext \<Rightarrow> uint64" where
  "gasShareOf gasLeft ctx = of_nat ((unat gasLeft - gasNeededOf ctx) div zeroCountOf ctx)"

text \<open>Section 4.2, steps 2 and 5: the gas limit a call ends with.\<close>

definition allocated :: "uint64 \<Rightarrow> AsyncCall \<Rightarrow> AsyncCall" where
  "allocated share c = c\<lparr>GasLimit := (if ProvidedGas c = 0 then share else ProvidedGas c)\<rparr>"

definition allocatedContext :: "uint64 \<Rightarrow> AsyncContext \<Rightarrow> AsyncContext" where
  "allocatedContext gasLeft ctx =
     ctx\<lparr>AsyncCallGroups :=
       map (\<lambda>g. g\<lparr>AsyncCalls := map (allocated (gasShareOf gasLeft ctx)) (AsyncCalls g)\<rparr>)
         (AsyncCallGroups ctx)\<rparr>"

text \<open>
  Section 4.2, steps 1 and 4: when the allocator fails. The accumulation after \<open>k\<close> calls
  is the sum of the provided gas of the first \<open>k\<close> calls; it exceeds the balance also
  when it no longer fits in 64 bits, the balance being a 64-bit number.
\<close>

definition accumulationExceeds :: "uint64 \<Rightarrow> AsyncContext \<Rightarrow> bool" where
  "accumulationExceeds gasLeft ctx =
     (\<exists>k \<in> {..length (allCalls (AsyncCallGroups ctx))}.
        unat gasLeft < providedSum (take k (allCalls (AsyncCallGroups ctx))))"

definition allocationFails :: "uint64 \<Rightarrow> AsyncContext \<Rightarrow> bool" where
  "allocationFails gasLeft ctx =
     (accumulationExceeds gasLeft ctx \<or> (zeroCountOf ctx \<noteq> 0 \<and> unat gasLeft \<le> gasNeededOf ctx))"

text \<open>Intermediate result of the first pair of loops when it runs to its end.\<close>

definition assignProvided :: "AsyncCall \<Rightarrow> AsyncCall" where
  "assignProvided c = (if ProvidedGas c = 0 then c else c\<lparr>GasLimit := ProvidedGas c\<rparr>)"

definition assignProvidedGroup :: "AsyncCallGroup \<Rightarrow> AsyncCallGroup" where
  "assignProvidedGroup g = g\<lparr>AsyncCalls := map assignProvided (AsyncCalls g)\<rparr>"

subsection \<open>Frames: what a function leaves unchanged\<close>

text \<open>Two calls, groups or contexts that differ at most in the gas limits of their calls.\<close>

definition gasLimitOnly :: "AsyncCall \<Rightarrow> AsyncCall \<Rightarrow> bool" where
  "gasLimitOnly c c' = (c' = c\<lparr>GasLimit := GasLimit c'\<rparr>)"

definition groupGasLimitOnly :: "AsyncCallGroup \<Rightarrow> AsyncCallGroup \<Rightarrow> bool" where
  "groupGasLimitOnly g g' =
     (g' = g\<lparr>AsyncCalls := AsyncCalls g'\<rparr> \<and> list_all2 gasLimitOnly (AsyncCalls g) (AsyncCalls g'))"

definition contextGasLimitOnly :: "AsyncContext \<Rightarrow> AsyncContext \<Rightarrow> bool" where
  "contextGasLimitOnly ctx ctx' =
     (ctx' = ctx\<lparr>AsyncCallGroups := AsyncCallGroups ctx'\<rparr> \<and>
      list_all2 groupGasLimitOnly (AsyncCallGroups ctx) (AsyncCallGroups ctx'))"

subsection \<open>Reading the log of collaborator calls\<close>

definition storageWrite :: "event \<Rightarrow> (bytes \<times> bytes) list" where
  "storageWrite ev = (case ev of EvSetStorage k d \<Rightarrow> [(k, d)] | _ \<Rightarrow> [])"

definition storageWrites :: "event list \<Rightarrow> (bytes \<times> bytes) list" where
  "storageWrites evs = concat (map storageWrite evs)"

definition transfer :: "event \<Rightarrow> TransferArgs list" where
  "transfer ev = (case ev of EvTransfer a \<Rightarrow> [a] | _ \<Rightarrow> [])"

definition transfers :: "event list \<Rightarrow> TransferArgs list" where
  "transfers evs = concat (map transfer evs)"

definition execution :: "event \<Rightarrow> ContractCallInput list" where
  "execution ev = (case ev of EvExecuteOnDestContext i \<Rightarrow> [i] | _ \<Rightarrow> [])"

definition executions :: "event list \<Rightarrow> ContractCallInput list" where
  "executions evs = concat (map execution evs)"

definition groupCallback :: "event \<Rightarrow> AsyncCallGroup list" where
  "groupCallback ev = (case ev of EvGroupCallback g \<Rightarrow> [g] | _ \<Rightarrow> [])"

definition groupCallbacks :: "event list \<Rightarrow> AsyncCallGroup list" where
  "groupCallbacks evs = concat (map groupCallback evs)"

subsection \<open>The flat encoding of call data\<close>

text \<open>
  Modelled from the spec: the encoder of call data is not among the source files. Section
  4.3 speaks of "the separator between the function name and each argument in the
  canonical flat encoding", and the comment in \<^verbatim>\<open>computeDataLengthFromArguments\<close> gives
  its form as \<^verbatim>\<open>callback@arg1@arg4...\<close>: the function name, then each argument after
  a separator.
\<close>

definition flatEncoding :: "string \<Rightarrow> bytes list \<Rightarrow> bytes" where
  "flatEncoding function arguments = function @ concat (map (\<lambda>a. CHR ''@'' # a) arguments)"

subsection \<open>A small host for concrete runs\<close>

text \<open>
  The collaborators' state is the metering balance. Data is parsed as a function name
  without arguments, empty data being invalid; the shard of an address is its length; the
  executor fails with return code 4 on the function \<open>fail\<close> and hands back the gas it
  was given.
\<close>

definition ex_parse :: "bytes \<Rightarrow> error + (string \<times> bytes list)" where
  "ex_parse d = (if d = [] then Inl (ErrCollaborator ''invalid call data'') else Inr (d, []))"

definition ex_exec :: "ContractCallInput \<Rightarrow> uint64 \<Rightarrow> (VMOutput option \<times> error option) \<times> uint64" where
  "ex_exec input w =
     ((Some \<lparr>ReturnCode = (if Function input = ''fail'' then 4 else 0),
             ReturnData = [],
             ReturnMessage = (if Function input = ''fail'' then ''user error'' else []),
             GasRemaining = GasProvided input\<rparr>, None), w)"

definition ex_env :: "uint64 env" where
  "ex_env =
     \<lparr>ParseData = ex_parse,
      GetShardOfAddress = length,
      IsBuiltinFunctionName = (\<lambda>f. f = ''fail'' \<or> f = ''builtin''),
      AsyncCallStep = 10,
      DataCopyPerByte = 1,
      GetSCAddress = ''sc'',
      GasPrice = 1,
      GetCurrentTxHash = ''cur'',
      GetOriginalTxHash = ''orig'',
      GetPrevTxHash = ''prev'',
      AsyncDataPrefix = ''ASYNC'',
      LegacyAsyncCallGroupID = ''Legacy'',
      GasLeft = (\<lambda>w. w),
      UseGas = (\<lambda>gas w. w - gas),
      FailExecution = (\<lambda>e w. w),
      Transfer = (\<lambda>a w. (None, w)),
      ExecuteOnDestContext = ex_exec,
      SetStorage = (\<lambda>k d w. (None, w)),
      Marshal = (\<lambda>ctx. Inr (concat (map Identifier (AsyncCallGroups ctx)))),
      CreateVMOutputInCaseOfError =
        (\<lambda>e w. \<lparr>ReturnCode = 10, ReturnData = [], ReturnMessage = ''not enough gas'', GasRemaining = 0\<rparr>),
      SetReturnMessage = (\<lambda>m w. w),
      Finish = (\<lambda>b w. w),
      SetGasProvided = (\<lambda>gas w. w),
      ReturnCodeString = (\<lambda>rc. if rc = 0 then ''ok'' else ''failed'')\<rparr>"

definition ex_host :: "uint64 \<Rightarrow> uint64 host" where
  "ex_host gas = \<lparr>world = gas, trace = []\<rparr>"

definition ex_call :: "bytes \<Rightarrow> bytes \<Rightarrow> uint64 \<Rightarrow> AsyncCall" where
  "ex_call destination data provided =
     \<lparr>Destination = destination, Data = data, ValueBytes = [], ProvidedGas = provided,
      GasLimit = 0, GasLocked = 0, CallbackName = ''cb'', Status = Pending\<rparr>"

definition ex_group :: "string \<Rightarrow> AsyncCall list \<Rightarrow> AsyncCallGroup" where
  "ex_group gid cs = \<lparr>Identifier = gid, Callback = [], AsyncCalls = cs\<rparr>"

definition ex_context :: "AsyncCallGroup list \<Rightarrow> AsyncContext" where
  "ex_context gs = \<lparr>CallerAddr = ''sc'', AsyncCallGroups = gs\<rparr>"

text \<open>Concrete calls, groups and contexts for the runs below.\<close>

definition ex_ctx_remote :: AsyncContext where
  "ex_ctx_remote = ex_context [ex_group ''g'' [ex_call ''remote'' ''f'' 100]]"

definition ex_ctx_legacy :: AsyncContext where
  "ex_ctx_legacy =
     ex_context [ex_group ''Legacy'' [ex_call ''remote'' ''f'' 100],
                 ex_group ''g'' [ex_call ''remote'' ''f'' 100]]"

definition ex_ctx_short :: AsyncContext where
  "ex_ctx_short = ex_context [ex_group ''g'' [ex_call ''d1'' ''f'' 5, ex_call ''d1'' ''f'' 0]]"

definition ex_grp_sync :: AsyncCallGroup where
  "ex_grp_sync = ex_group ''g'' [(ex_call ''d1'' ''f'' 0)\<lparr>GasLimit := 100\<rparr>]"

definition ex_call_invalid :: AsyncCall where
  "ex_call_invalid = ex_call ''remote'' [] 50"

definition ex_ctx_invalid :: AsyncContext where
  "ex_ctx_invalid = ex_context [ex_group ''g'' [ex_call_invalid]]"

definition ex_call_lowgas :: AsyncCall where
  "ex_call_lowgas = (ex_call ''d1'' ''f'' 20)\<lparr>GasLimit := 20\<rparr>"

definition ex_call_builtin_fail :: AsyncCall where
  "ex_call_builtin_fail = (ex_call ''remote'' ''fail'' 100)\<lparr>GasLimit := 100\<rparr>"

definition ex_call_step :: AsyncCall where
  "ex_call_step = (ex_call ''d1'' ''f'' 5)\<lparr>GasLimit := 5\<rparr>"

definition ex_ctx_step :: AsyncContext where
  "ex_ctx_step = ex_context [ex_group ''g'' [ex_call ''d1'' ''f'' 5]]"

section \<open>Properties\<close>

subsection \<open>Gas allocator\<close>

lemma providedSum_simps [simp]:
  "providedSum [] = 0"
  "providedSum (c # cs) = unat (ProvidedGas c) + providedSum cs"
  "providedSum (xs @ ys) = providedSum xs + providedSum ys"
  by (simp_all add: providedSum_def)

lemma zeroCount_simps [simp]:
  "zeroCount [] = 0"
  "zeroCount (c # cs) = (if ProvidedGas c = 0 then Suc (zeroCount cs) else zeroCount cs)"
  "zeroCount (xs @ ys) = zeroCount xs + zeroCount ys"
  by (simp_all add: zeroCount_def)

lemma unat_lt64: "unat (g::uint64) < 18446744073709551616"
proof -
  have "unat g < 2 ^ LENGTH(64)" by (rule unsigned_less)
  then show ?thesis by simp
qed

lemma AddUint64_ok: "unat a + unat b \<le> unat (g::uint64) \<Longrightarrow> AddUint64 a b = Inr (a + b)"
  using unat_lt64 [of g] by (simp add: AddUint64_def)

lemma unat_add_small: "unat (a::uint64) + unat b \<le> unat (g::uint64) \<Longrightarrow> unat (a + b) = unat a + unat b"
proof -
  assume a: "unat a + unat b \<le> unat g"
  with unat_lt64 [of g] have "unat a + unat b < 2 ^ LENGTH(64)" by simp
  then show ?thesis by (simp only: unat_add_lem)
qed

lemma sumCalls_success:
  "unat n + providedSum cs \<le> unat gl \<Longrightarrow>
   sumCalls gl n z cs = (None, n + of_nat (providedSum cs), z + of_nat (zeroCount cs), map assignProvided cs)"
proof (induction cs arbitrary: n z)
  case Nil
  then show ?case by simp
next
  case (Cons c cs)
  let ?p = "ProvidedGas c"
  from Cons.prems have le: "unat n + unat ?p \<le> unat gl" by simp
  have u: "unat (n + ?p) = unat n + unat ?p" using le by (rule unat_add_small)
  have ng: "\<not> gl < n + ?p" using le u by (simp add: word_less_nat_alt)
  have ih: "sumCalls gl (n + ?p) z' cs =
      (None, n + ?p + of_nat (providedSum cs), z' + of_nat (zeroCount cs), map assignProvided cs)" for z'
    using Cons.prems u by (intro Cons.IH) simp
  show ?case
  proof (cases "?p = 0")
    case True
    with ng ih [of "z + 1"] AddUint64_ok [OF le] show ?thesis
      by (simp add: assignProvided_def add.assoc)
  next
    case False
    with ng ih [of z] AddUint64_ok [OF le] show ?thesis
      by (simp add: assignProvided_def add.assoc)
  qed
qed

lemma gasLimitOnly_refl [simp]: "gasLimitOnly c c"
  by (simp add: gasLimitOnly_def)

lemma gasLimitOnly_upd [simp]: "gasLimitOnly c (c\<lparr>GasLimit := g\<rparr>)"
  by (simp add: gasLimitOnly_def)

lemma list_all2_gasLimitOnly_refl [simp]: "list_all2 gasLimitOnly cs cs"
  by (simp add: list_all2_refl)

lemma sumCalls_frame:
  "sumCalls gl n z cs = (e, n', z', cs') \<Longrightarrow> list_all2 gasLimitOnly cs cs'"
proof (induction cs arbitrary: n z e n' z' cs')
  case Nil
  then show ?case by simp
next
  case (Cons c cs)
  then show ?case
    by (fastforce split: sum.splits if_splits prod.splits)
qed

lemma sumCalls_error:
  "sumCalls gl n z cs = (Some e, n', z', cs') \<Longrightarrow> e = ErrNotEnoughGas"
proof (induction cs arbitrary: n z n' z' cs')
  case Nil
  then show ?case by simp
next
  case (Cons c cs)
  then show ?case
    by (fastforce simp: AddUint64_def split: sum.splits if_splits prod.splits)
qed

lemma sumCalls_fail:
  "unat n \<le> unat gl \<Longrightarrow> unat gl < unat n + providedSum cs \<Longrightarrow>
   \<exists>n' z' cs'. sumCalls gl n z cs = (Some ErrNotEnoughGas, n', z', cs')"
proof (induction cs arbitrary: n z)
  case Nil
  then show ?case by simp
next
  case (Cons c cs)
  let ?p = "ProvidedGas c"
  show ?case
  proof (cases "unat n + unat ?p \<le> unat gl")
    case True
    have u: "unat (n + ?p) = unat n + unat ?p" using True by (rule unat_add_small)
    have ng: "\<not> gl < n + ?p" using True u by (simp add: word_less_nat_alt)
    have ih: "\<exists>n' z' cs'. sumCalls gl (n + ?p) z'' cs = (Some ErrNotEnoughGas, n', z', cs')" for z''
      using Cons.prems True u by (intro Cons.IH) simp_all
    show ?thesis
    proof (cases "?p = 0")
      case True
      with ng ih [of "z + 1"] AddUint64_ok [OF \<open>unat n + unat ?p \<le> unat gl\<close>] show ?thesis
        by auto
    next
      case False
      with ng ih [of z] AddUint64_ok [OF \<open>unat n + unat ?p \<le> unat gl\<close>] show ?thesis
        by auto
    qed
  next
    case False
    show ?thesis
    proof (cases "unat n + unat ?p < 2 ^ 64")
      case True
      then have u: "unat (n + ?p) = unat n + unat ?p"
        by (simp add: unat_add_lem [symmetric])
      with False have "gl < n + ?p" by (simp add: word_less_nat_alt)
      with True show ?thesis by (simp add: AddUint64_def)
    next
      case False
      then show ?thesis by (simp add: AddUint64_def)
    qed
  qed
qed

lemma unat_add_of_nat: "unat (n::uint64) + k \<le> unat (gl::uint64) \<Longrightarrow> unat (n + of_nat k) = unat n + k"
proof -
  assume a: "unat n + k \<le> unat gl"
  with unat_lt64 [of gl] have "k < 2 ^ LENGTH(64)" by simp
  then have k: "unat (of_nat k :: uint64) = k" by (simp only: unat_of_nat mod_less)
  with a have "unat n + unat (of_nat k :: uint64) \<le> unat gl" by simp
  then have "unat (n + of_nat k) = unat n + unat (of_nat k :: uint64)" by (rule unat_add_small)
  with k show ?thesis by simp
qed

lemma allCalls_simps [simp]:
  "allCalls [] = []"
  "allCalls (g # gs) = AsyncCalls g @ allCalls gs"
  by (simp_all add: allCalls_def)

lemma sumGroups_success:
  "unat n + providedSum (allCalls gs) \<le> unat gl \<Longrightarrow>
   sumGroups gl n z gs =
     (None, n + of_nat (providedSum (allCalls gs)), z + of_nat (zeroCount (allCalls gs)),
      map assignProvidedGroup gs)"
proof (induction gs arbitrary: n z)
  case Nil
  then show ?case by simp
next
  case (Cons g gs)
  let ?k = "providedSum (AsyncCalls g)"
  from Cons.prems have le: "unat n + ?k \<le> unat gl" by simp
  have u: "unat (n + of_nat ?k) = unat n + ?k" using le by (rule unat_add_of_nat)
  have c: "sumCalls gl n z (AsyncCalls g) =
      (None, n + of_nat ?k, z + of_nat (zeroCount (AsyncCalls g)), map assignProvided (AsyncCalls g))"
    using le by (rule sumCalls_success)
  have "unat (n + of_nat ?k) + providedSum (allCalls gs) \<le> unat gl"
    using Cons.prems u by simp
  from Cons.IH [OF this] c show ?case
    by (simp add: assignProvidedGroup_def add.assoc)
qed

lemma sumGroups_error:
  "sumGroups gl n z gs = (Some e, n', z', gs') \<Longrightarrow> e = ErrNotEnoughGas"
proof (induction gs arbitrary: n z n' z' gs')
  case Nil
  then show ?case by simp
next
  case (Cons g gs)
  then show ?case
    by (auto split: prod.splits option.splits dest: sumCalls_error)
qed

lemma sumGroups_fail:
  "unat n \<le> unat gl \<Longrightarrow> unat gl < unat n + providedSum (allCalls gs) \<Longrightarrow>
   \<exists>n' z' gs'. sumGroups gl n z gs = (Some ErrNotEnoughGas, n', z', gs')"
proof (induction gs arbitrary: n z)
  case Nil
  then show ?case by simp
next
  case (Cons g gs)
  let ?k = "providedSum (AsyncCalls g)"
  show ?case
  proof (cases "unat n + ?k \<le> unat gl")
    case True
    have u: "unat (n + of_nat ?k) = unat n + ?k" using True by (rule unat_add_of_nat)
    have c: "sumCalls gl n z (AsyncCalls g) =
        (None, n + of_nat ?k, z + of_nat (zeroCount (AsyncCalls g)), map assignProvided (AsyncCalls g))"
      using True by (rule sumCalls_success)
    have "\<exists>n' z' gs'. sumGroups gl (n + of_nat ?k) (z + of_nat (zeroCount (AsyncCalls g))) gs =
        (Some ErrNotEnoughGas, n', z', gs')"
      using Cons.prems True u by (intro Cons.IH) simp_all
    with c show ?thesis by auto
  next
    case False
    then have "unat gl < unat n + ?k" by simp
    from sumCalls_fail [OF Cons.prems(1) this, of z]
    show ?thesis by auto
  qed
qed

lemma providedSum_take_le: "providedSum (take k cs) \<le> providedSum cs"
proof -
  have "providedSum cs = providedSum (take k cs @ drop k cs)" by simp
  also have "\<dots> = providedSum (take k cs) + providedSum (drop k cs)" by (simp only: providedSum_simps)
  finally show ?thesis by simp
qed

lemma accumulationExceeds_iff:
  "accumulationExceeds gasLeft ctx \<longleftrightarrow> unat gasLeft < gasNeededOf ctx"
proof
  assume "accumulationExceeds gasLeft ctx"
  then obtain k where "unat gasLeft < providedSum (take k (allCalls (AsyncCallGroups ctx)))"
    by (auto simp: accumulationExceeds_def)
  with providedSum_take_le [of k "allCalls (AsyncCallGroups ctx)"]
  show "unat gasLeft < gasNeededOf ctx" by (simp add: gasNeededOf_def)
next
  assume "unat gasLeft < gasNeededOf ctx"
  then show "accumulationExceeds gasLeft ctx"
    unfolding accumulationExceeds_def gasNeededOf_def
    by (intro bexI [of _ "length (allCalls (AsyncCallGroups ctx))"]) simp_all
qed

lemma zeroCount_le_length: "zeroCount cs \<le> length cs"
  by (simp add: zeroCount_def)

lemma zeroCount_word_eq_0:
  "length cs < 2 ^ 64 \<Longrightarrow> (of_nat (zeroCount cs) = (0::uint64)) \<longleftrightarrow> zeroCount cs = 0"
proof -
  assume "length cs < 2 ^ 64"
  with zeroCount_le_length [of cs] have "zeroCount cs < 2 ^ LENGTH(64)" by simp
  then have "unat (of_nat (zeroCount cs) :: uint64) = zeroCount cs"
    by (simp only: unat_of_nat mod_less)
  then have u: "unat (of_nat (zeroCount cs) :: uint64) = zeroCount cs" .
  show ?thesis
  proof
    assume "of_nat (zeroCount cs) = (0::uint64)"
    then have "unat (of_nat (zeroCount cs) :: uint64) = unat (0::uint64)" by (rule arg_cong)
    with u show "zeroCount cs = 0" by simp
  next
    assume "zeroCount cs = 0"
    then show "of_nat (zeroCount cs) = (0::uint64)" by simp
  qed
qed

lemma zeroCount_0_map:
  "zeroCount cs = 0 \<Longrightarrow> map assignProvided cs = map (allocated share) cs"
  by (induction cs) (auto simp: assignProvided_def allocated_def split: if_splits)

lemma shareCall_assignProvided: "shareCall share (assignProvided c) = allocated share c"
  by (simp add: shareCall_def assignProvided_def allocated_def)

lemma zeroCount_allCalls_0:
  "zeroCount (allCalls gs) = 0 \<Longrightarrow> g \<in> set gs \<Longrightarrow> zeroCount (AsyncCalls g) = 0"
  by (induction gs) auto

lemma unat_gasShare:
  assumes "needed \<le> unat (gl::uint64)" and "zc < 2 ^ 64"
  shows "(gl - of_nat needed) div of_nat zc = (of_nat ((unat gl - needed) div zc) :: uint64)"
proof -
  from assms(1) unat_lt64 [of gl] have "needed < 2 ^ LENGTH(64)" by simp
  then have n: "unat (of_nat needed :: uint64) = needed" by (simp only: unat_of_nat mod_less)
  from assms(2) have "zc < 2 ^ LENGTH(64)" by simp
  then have z: "unat (of_nat zc :: uint64) = zc" by (simp only: unat_of_nat mod_less)
  have "(of_nat needed :: uint64) \<le> gl" using n assms(1) by (simp add: word_le_nat_alt)
  then have "unat (gl - of_nat needed) = unat gl - needed" using n by (simp add: unat_sub)
  then have l: "unat ((gl - of_nat needed) div of_nat zc) = (unat gl - needed) div zc"
    using z by (simp add: unat_div)
  have "(unat gl - needed) div zc \<le> unat gl - needed" by (rule div_le_dividend)
  then have "(unat gl - needed) div zc \<le> unat gl" by (rule le_trans) simp
  with unat_lt64 [of gl] have "(unat gl - needed) div zc < 2 ^ LENGTH(64)" by simp
  then have r: "unat (of_nat ((unat gl - needed) div zc) :: uint64) = (unat gl - needed) div zc"
    by (simp only: unat_of_nat mod_less)
  from l r have "unat ((gl - of_nat needed) div of_nat zc) = unat (of_nat ((unat gl - needed) div zc) :: uint64)"
    by (simp only:)
  then show ?thesis by (simp only: word_unat_eq_iff)
qed


lemma setupAsyncCallsGas_parts:
  assumes len: "length (allCalls (AsyncCallGroups ctx)) < 2 ^ 64"
  shows "fst (setupAsyncCallsGas env h ctx) =
           (if allocationFails (GasLeft env (world h)) ctx then Some ErrNotEnoughGas else None)"
    and "\<not> allocationFails (GasLeft env (world h)) ctx \<Longrightarrow>
           snd (setupAsyncCallsGas env h ctx) = allocatedContext (GasLeft env (world h)) ctx"
    and "unat (gasShareOf (GasLeft env (world h)) ctx) =
           (unat (GasLeft env (world h)) - gasNeededOf ctx) div zeroCountOf ctx"
    and "zeroCountOf ctx \<noteq> 0 \<Longrightarrow> gasNeededOf ctx < unat (GasLeft env (world h)) \<Longrightarrow>
           \<not> allocationFails (GasLeft env (world h)) ctx"
proof -
  let ?gl = "GasLeft env (world h)"
  let ?gs = "AsyncCallGroups ctx"
  let ?needed = "gasNeededOf ctx"
  let ?zc = "zeroCountOf ctx"
  have zc_lt: "?zc < 2 ^ 64"
    using len zeroCount_le_length [of "allCalls ?gs"] by (simp add: zeroCountOf_def)
  have zw: "(of_nat ?zc = (0::uint64)) \<longleftrightarrow> ?zc = 0"
    unfolding zeroCountOf_def using len by (rule zeroCount_word_eq_0)
  show "unat (gasShareOf ?gl ctx) = (unat ?gl - ?needed) div ?zc"
  proof -
    have "(unat ?gl - ?needed) div ?zc \<le> unat ?gl - ?needed" by (rule div_le_dividend)
    then have "(unat ?gl - ?needed) div ?zc \<le> unat ?gl" by (rule le_trans) simp
    with unat_lt64 [of ?gl] have "(unat ?gl - ?needed) div ?zc < 2 ^ LENGTH(64)" by simp
    then show ?thesis unfolding gasShareOf_def by (simp only: unat_of_nat mod_less)
  qed
  show "\<not> allocationFails ?gl ctx" if "?zc \<noteq> 0" "?needed < unat ?gl"
    using that by (simp add: allocationFails_def accumulationExceeds_iff)
  have fails_case: "fst (setupAsyncCallsGas env h ctx) = Some ErrNotEnoughGas"
    if f: "allocationFails ?gl ctx"
  proof (cases "unat ?gl < ?needed")
    case True
    then have "unat (0::uint64) \<le> unat ?gl" "unat ?gl < unat (0::uint64) + providedSum (allCalls ?gs)"
      by (simp_all add: gasNeededOf_def)
    from sumGroups_fail [OF this, of 0]
    show ?thesis by (auto simp: setupAsyncCallsGas_def)
  next
    case False
    with f have z: "?zc \<noteq> 0" and eq: "unat ?gl \<le> ?needed"
      by (simp_all add: allocationFails_def accumulationExceeds_iff)
    from False have le: "unat (0::uint64) + providedSum (allCalls ?gs) \<le> unat ?gl"
      by (simp add: gasNeededOf_def)
    have n: "unat (0 + of_nat (providedSum (allCalls ?gs)) :: uint64) = providedSum (allCalls ?gs)"
      using unat_add_of_nat [OF le] by simp
    have "?gl \<le> 0 + of_nat (providedSum (allCalls ?gs))"
      using eq n by (simp add: word_le_nat_alt gasNeededOf_def)
    with z zw show ?thesis
      by (simp add: setupAsyncCallsGas_def sumGroups_success [OF le] zeroCountOf_def)
  qed
  have ok_case: "setupAsyncCallsGas env h ctx = (None, allocatedContext ?gl ctx)"
    if nf: "\<not> allocationFails ?gl ctx"
  proof -
    from nf have nle: "?needed \<le> unat ?gl" and zz: "?zc = 0 \<or> ?needed < unat ?gl"
      by (auto simp: allocationFails_def accumulationExceeds_iff)
    from nle have le: "unat (0::uint64) + providedSum (allCalls ?gs) \<le> unat ?gl"
      by (simp add: gasNeededOf_def)
    have n: "unat (0 + of_nat (providedSum (allCalls ?gs)) :: uint64) = providedSum (allCalls ?gs)"
      using unat_add_of_nat [OF le] by simp
    show ?thesis
    proof (cases "?zc = 0")
      case True
      have "map assignProvidedGroup ?gs =
            map (\<lambda>g. g\<lparr>AsyncCalls := map (allocated (gasShareOf ?gl ctx)) (AsyncCalls g)\<rparr>) ?gs"
      proof (rule map_cong [OF refl])
        fix g assume "g \<in> set ?gs"
        with True have "zeroCount (AsyncCalls g) = 0"
          unfolding zeroCountOf_def by (rule zeroCount_allCalls_0)
        then have "map assignProvided (AsyncCalls g) = map (allocated (gasShareOf ?gl ctx)) (AsyncCalls g)"
          by (rule zeroCount_0_map)
        then show "assignProvidedGroup g = g\<lparr>AsyncCalls := map (allocated (gasShareOf ?gl ctx)) (AsyncCalls g)\<rparr>"
          by (simp add: assignProvidedGroup_def)
      qed
      with True show ?thesis
        by (simp add: setupAsyncCallsGas_def sumGroups_success [OF le] zeroCountOf_def
            allocatedContext_def)
    next
      case False
      with zz have lt: "?needed < unat ?gl" by simp
      have ngl: "\<not> ?gl \<le> 0 + of_nat (providedSum (allCalls ?gs))"
        using lt n by (simp add: word_le_nat_alt gasNeededOf_def)
      have share: "(?gl - (0 + of_nat (providedSum (allCalls ?gs)))) div (0 + of_nat (zeroCount (allCalls ?gs)))
            = gasShareOf ?gl ctx"
        using unat_gasShare [OF nle zc_lt]
        by (simp add: gasShareOf_def gasNeededOf_def zeroCountOf_def)
      have "shareGroups (gasShareOf ?gl ctx) (map assignProvidedGroup ?gs) =
            map (\<lambda>g. g\<lparr>AsyncCalls := map (allocated (gasShareOf ?gl ctx)) (AsyncCalls g)\<rparr>) ?gs"
        by (simp add: shareGroups_def assignProvidedGroup_def shareCall_assignProvided comp_def)
      with False zw ngl share show ?thesis
        by (simp add: setupAsyncCallsGas_def sumGroups_success [OF le] zeroCountOf_def
            allocatedContext_def Let_def)
    qed
  qed
  show "fst (setupAsyncCallsGas env h ctx) = (if allocationFails ?gl ctx then Some ErrNotEnoughGas else None)"
    using fails_case ok_case by simp
  show "snd (setupAsyncCallsGas env h ctx) = allocatedContext ?gl ctx" if "\<not> allocationFails ?gl ctx"
    using ok_case [OF that] by simp
qed

text \<open>
  Claim C1. Let \<open>gasLeft\<close> be the metering balance, \<open>gasNeeded\<close> the sum of the
  provided gas of all calls and \<open>zeroCount\<close> the number of calls that provide none (the
  number of calls fits in 64 bits, as the counter of the code does). The allocator fails,
  and then with \<open>ErrNotEnoughGas\<close>, exactly when the accumulation exceeds \<open>gasLeft\<close>
  after some call (which includes every overflow of the 64-bit accumulator), or zero-gas
  calls exist and \<open>gasLeft \<le> gasNeeded\<close>. When it does not fail, every call with
  nonzero provided gas has \<open>GasLimit = ProvidedGas\<close>, every zero-gas call has
  \<open>GasLimit = (gasLeft - gasNeeded) div zeroCount\<close>, and nothing else has changed. It does
  not fail when zero-gas calls exist and \<open>gasLeft > gasNeeded\<close>.
\<close>

theorem C1_setupAsyncCallsGas_allocation:
  assumes "length (allCalls (AsyncCallGroups ctx)) < 2 ^ 64"
  shows "fst (setupAsyncCallsGas env h ctx) =
           (if allocationFails (GasLeft env (world h)) ctx then Some ErrNotEnoughGas else None)
       \<and> (\<not> allocationFails (GasLeft env (world h)) ctx \<longrightarrow>
           snd (setupAsyncCallsGas env h ctx) = allocatedContext (GasLeft env (world h)) ctx)
       \<and> unat (gasShareOf (GasLeft env (world h)) ctx) =
           (unat (GasLeft env (world h)) - gasNeededOf ctx) div zeroCountOf ctx
       \<and> (zeroCountOf ctx \<noteq> 0 \<and> gasNeededOf ctx < unat (GasLeft env (world h)) \<longrightarrow>
           \<not> allocationFails (GasLeft env (world h)) ctx)"
  using setupAsyncCallsGas_parts [OF assms, of env h] by blast

theorem C1_setupAsyncCallsGas_allocation_witness:
  "length (allCalls (AsyncCallGroups
      (ex_context [ex_group ''g'' [ex_call ''d1'' ''f'' 100, ex_call ''d1'' ''f'' 0, ex_call ''d1'' ''f'' 0]])))
     < 2 ^ 64
   \<and> fst (setupAsyncCallsGas ex_env (ex_host 1000)
      (ex_context [ex_group ''g'' [ex_call ''d1'' ''f'' 100, ex_call ''d1'' ''f'' 0, ex_call ''d1'' ''f'' 0]]))
     = None
   \<and> map GasLimit (allCalls (AsyncCallGroups (snd (setupAsyncCallsGas ex_env (ex_host 1000)
      (ex_context [ex_group ''g'' [ex_call ''d1'' ''f'' 100, ex_call ''d1'' ''f'' 0, ex_call ''d1'' ''f'' 0]])))))
     = [100, 450, 450]"
proof -
  let ?ctx = "ex_context [ex_group ''g'' [ex_call ''d1'' ''f'' 100, ex_call ''d1'' ''f'' 0, ex_call ''d1'' ''f'' 0]]"
  let ?gl = "GasLeft ex_env (world (ex_host 1000))"
  have len: "length (allCalls (AsyncCallGroups ?ctx)) < 2 ^ 64"
    by (simp add: ex_context_def ex_group_def ex_call_def allCalls_def)
  have gl: "?gl = 1000"
    by (simp add: ex_env_def ex_host_def)
  have nf: "\<not> allocationFails ?gl ?ctx"
    unfolding gl
    by (simp add: allocationFails_def accumulationExceeds_iff gasNeededOf_def zeroCountOf_def
        ex_context_def ex_group_def ex_call_def)
  have share: "gasShareOf ?gl ?ctx = 450"
    unfolding gl
    by (simp add: gasShareOf_def gasNeededOf_def zeroCountOf_def ex_context_def ex_group_def
        ex_call_def flip: numeral_2_eq_2)
  from C1_setupAsyncCallsGas_allocation [OF len, of ex_env "ex_host 1000"] nf
  have r: "fst (setupAsyncCallsGas ex_env (ex_host 1000) ?ctx) = None"
    and c: "snd (setupAsyncCallsGas ex_env (ex_host 1000) ?ctx) = allocatedContext ?gl ?ctx"
    by simp_all
  have "map GasLimit (allCalls (AsyncCallGroups (allocatedContext ?gl ?ctx))) = [100, 450, 450]"
    unfolding allocatedContext_def share
    by (simp add: allocated_def ex_context_def ex_group_def ex_call_def)
  with len r c show ?thesis by (simp only:)
qed


subsection \<open>The log of collaborator calls\<close>

lemma emit_simps [simp]:
  "trace (emit ev w h) = trace h @ [ev]"
  "world (emit ev w h) = w"
  by (simp_all add: emit_def)

lemma storageWrites_simps [simp]:
  "storageWrites [] = []"
  "storageWrites (xs @ ys) = storageWrites xs @ storageWrites ys"
  "storageWrites (ev # xs) = storageWrite ev @ storageWrites xs"
  by (simp_all add: storageWrites_def)

lemma storageWrite_simps [simp]:
  "storageWrite (EvSetStorage k d) = [(k, d)]"
  "storageWrite (EvExecuteOnDestContext i) = []"
  "storageWrite (EvTransfer a) = []"
  "storageWrite (EvUseGas u) = []"
  "storageWrite (EvFailExecution e) = []"
  "storageWrite (EvGroupCallback g) = []"
  "storageWrite (EvSetGasProvided u) = []"
  "storageWrite (EvSetReturnMessage m) = []"
  "storageWrite (EvFinish b) = []"
  by (simp_all add: storageWrite_def)

lemma transfers_simps [simp]:
  "transfers [] = []"
  "transfers (xs @ ys) = transfers xs @ transfers ys"
  "transfers (ev # xs) = transfer ev @ transfers xs"
  by (simp_all add: transfers_def)

lemma transfer_simps [simp]:
  "transfer (EvTransfer a) = [a]"
  "transfer (EvExecuteOnDestContext i) = []"
  "transfer (EvSetStorage k d) = []"
  "transfer (EvUseGas u) = []"
  "transfer (EvFailExecution e) = []"
  "transfer (EvGroupCallback g) = []"
  "transfer (EvSetGasProvided u) = []"
  "transfer (EvSetReturnMessage m) = []"
  "transfer (EvFinish b) = []"
  by (simp_all add: transfer_def)

lemma executions_simps [simp]:
  "executions [] = []"
  "executions (xs @ ys) = executions xs @ executions ys"
  "executions (ev # xs) = execution ev @ executions xs"
  by (simp_all add: executions_def)

lemma execution_simps [simp]:
  "execution (EvExecuteOnDestContext i) = [i]"
  "execution (EvTransfer a) = []"
  "execution (EvSetStorage k d) = []"
  "execution (EvUseGas u) = []"
  "execution (EvFailExecution e) = []"
  "execution (EvGroupCallback g) = []"
  "execution (EvSetGasProvided u) = []"
  "execution (EvSetReturnMessage m) = []"
  "execution (EvFinish b) = []"
  by (simp_all add: execution_def)

lemma groupCallbacks_simps [simp]:
  "groupCallbacks [] = []"
  "groupCallbacks (xs @ ys) = groupCallbacks xs @ groupCallbacks ys"
  "groupCallbacks (ev # xs) = groupCallback ev @ groupCallbacks xs"
  by (simp_all add: groupCallbacks_def)

lemma groupCallback_simps [simp]:
  "groupCallback (EvGroupCallback g) = [g]"
  "groupCallback (EvExecuteOnDestContext i) = []"
  "groupCallback (EvTransfer a) = []"
  "groupCallback (EvSetStorage k d) = []"
  "groupCallback (EvUseGas u) = []"
  "groupCallback (EvFailExecution e) = []"
  "groupCallback (EvSetGasProvided u) = []"
  "groupCallback (EvSetReturnMessage m) = []"
  "groupCallback (EvFinish b) = []"
  by (simp_all add: groupCallback_def)

subsection \<open>What the per-call executor logs\<close>

lemma callExecuteOnDestContext_trace:
  "callExecuteOnDestContext env i h = (r, h') \<Longrightarrow> trace h' = trace h @ [EvExecuteOnDestContext i]"
  by (auto simp: callExecuteOnDestContext_def split: prod.splits)

lemma executeSyncCall_trace:
  "executeSyncCall env c h = (r, h') \<Longrightarrow>
   trace h' = trace h \<or> (\<exists>i. createSyncCallInput env c = Inr i \<and> trace h' = trace h @ [EvExecuteOnDestContext i])"
  by (auto simp: executeSyncCall_def split: sum.splits dest: callExecuteOnDestContext_trace)

lemma executeSyncCallback_trace:
  "executeSyncCallback env c v e h = (r, h') \<Longrightarrow>
   trace h' = trace h \<or>
   (\<exists>i. createSyncCallbackInput env c v e = Inr i \<and> trace h' = trace h @ [EvExecuteOnDestContext i])"
  by (auto simp: executeSyncCallback_def split: sum.splits dest: callExecuteOnDestContext_trace)

lemma finishSyncExecution_trace:
  "storageWrites (trace (finishSyncExecution env v e h)) = storageWrites (trace h)"
  "groupCallbacks (trace (finishSyncExecution env v e h)) = groupCallbacks (trace h)"
  "transfers (trace (finishSyncExecution env v e h)) = transfers (trace h)"
  "executions (trace (finishSyncExecution env v e h)) = executions (trace h)"
  by (simp_all add: finishSyncExecution_def Let_def split: option.splits)

lemma sendAsyncCallCrossShard_trace:
  assumes "sendAsyncCallCrossShard env c h = (r, h')"
  shows "storageWrites (trace h') = storageWrites (trace h)"
    and "groupCallbacks (trace h') = groupCallbacks (trace h)"
    and "executions (trace h') = executions (trace h)"
  using assms
  by (auto simp: sendAsyncCallCrossShard_def Let_def split: prod.splits option.splits)

lemma executeSyncCall_quiet:
  assumes "executeSyncCall env c h = (r, h')"
  shows "storageWrites (trace h') = storageWrites (trace h)"
    and "groupCallbacks (trace h') = groupCallbacks (trace h)"
    and "transfers (trace h') = transfers (trace h)"
  using executeSyncCall_trace [OF assms] by auto

lemma executeSyncCallback_quiet:
  assumes "executeSyncCallback env c v e h = (r, h')"
  shows "storageWrites (trace h') = storageWrites (trace h)"
    and "groupCallbacks (trace h') = groupCallbacks (trace h)"
    and "transfers (trace h') = transfers (trace h)"
  using executeSyncCallback_trace [OF assms] by auto

lemma executeAsyncCall_parse_error:
  "determineAsyncCallExecutionMode env c = (m, Some err) \<Longrightarrow>
   executeAsyncCall env c s h = (Inr (Some err), h, c)"
  by (simp add: executeAsyncCall_def)

lemma executeAsyncCall_sync_nil:
  "determineAsyncCallExecutionMode env c = (SyncExecution, None) \<Longrightarrow>
   executeSyncCall env c h = ((None, err), h1) \<Longrightarrow>
   executeAsyncCall env c s h = (Inl NilPointerDereference, h1, c)"
  by (simp add: executeAsyncCall_def)

lemma executeAsyncCall_sync:
  "determineAsyncCallExecutionMode env c = (SyncExecution, None) \<Longrightarrow>
   executeSyncCall env c h = ((Some v, err), h1) \<Longrightarrow>
   executeSyncCallback env (UpdateStatus (ReturnCode v) c) v err h1 = ((cv, ce), h2) \<Longrightarrow>
   executeAsyncCall env c s h =
     (Inr None, finishSyncExecution env cv ce h2, UpdateStatus (ReturnCode v) c)"
  by (simp add: executeAsyncCall_def)

lemma executeAsyncCall_skip:
  "determineAsyncCallExecutionMode env c = (m, None) \<Longrightarrow> m \<noteq> SyncExecution \<Longrightarrow>
   executeAsyncCall env c True h = (Inr None, h, c)"
  by (simp add: executeAsyncCall_def)

lemma executeAsyncCall_builtin_error:
  "determineAsyncCallExecutionMode env c = (AsyncBuiltinFunc, None) \<Longrightarrow>
   executeSyncCall env c h = ((v, Some err), h1) \<Longrightarrow>
   executeAsyncCall env c False h = (Inr (Some err), h1, c)"
  by (simp add: executeAsyncCall_def split: option.splits)

lemma executeAsyncCall_builtin_nil:
  "determineAsyncCallExecutionMode env c = (AsyncBuiltinFunc, None) \<Longrightarrow>
   executeSyncCall env c h = ((None, None), h1) \<Longrightarrow>
   executeAsyncCall env c False h = (Inl NilPointerDereference, h1, c)"
  by (simp add: executeAsyncCall_def)

lemma executeAsyncCall_builtin_ok:
  "determineAsyncCallExecutionMode env c = (AsyncBuiltinFunc, None) \<Longrightarrow>
   executeSyncCall env c h = ((Some v, None), h1) \<Longrightarrow> ReturnCode v = Ok \<Longrightarrow>
   executeAsyncCall env c False h = (Inr None, h1, c)"
  by (simp add: executeAsyncCall_def)

lemma executeAsyncCall_builtin_failed:
  "determineAsyncCallExecutionMode env c = (AsyncBuiltinFunc, None) \<Longrightarrow>
   executeSyncCall env c h = ((Some v, None), h1) \<Longrightarrow> ReturnCode v \<noteq> Ok \<Longrightarrow>
   executeSyncCallback env (UpdateStatus (ReturnCode v) c) v None h1 = ((cv, ce), h2) \<Longrightarrow>
   executeAsyncCall env c False h =
     (Inr None, finishSyncExecution env cv ce h2, UpdateStatus (ReturnCode v) c)"
  by (simp add: executeAsyncCall_def)

lemma executeAsyncCall_unknown:
  "determineAsyncCallExecutionMode env c = (AsyncUnknown, None) \<Longrightarrow>
   sendAsyncCallCrossShard env c h = (e, h1) \<Longrightarrow>
   executeAsyncCall env c False h = (Inr e, h1, c)"
  by (simp add: executeAsyncCall_def)

lemma executeAsyncCall_quiet:
  assumes "executeAsyncCall env c s h = (r, h', c')"
  shows "storageWrites (trace h') = storageWrites (trace h) \<and>
         groupCallbacks (trace h') = groupCallbacks (trace h)"
proof -
  obtain m pe where mode: "determineAsyncCallExecutionMode env c = (m, pe)"
    by (cases "determineAsyncCallExecutionMode env c") auto
  obtain v err h1 where fwd: "executeSyncCall env c h = ((v, err), h1)"
    by (cases "executeSyncCall env c h") auto
  note q1 = executeSyncCall_quiet [OF fwd]
  obtain te ht where snd: "sendAsyncCallCrossShard env c h = (te, ht)"
    by (cases "sendAsyncCallCrossShard env c h") auto
  note qt = sendAsyncCallCrossShard_trace [OF snd]
  have cb: "storageWrites (trace (finishSyncExecution env cv ce h2)) = storageWrites (trace h) \<and>
            groupCallbacks (trace (finishSyncExecution env cv ce h2)) = groupCallbacks (trace h)"
    if "executeSyncCallback env c2 v2 e2 h1 = ((cv, ce), h2)" for c2 v2 e2 cv ce h2
    using executeSyncCallback_quiet [OF that] q1 by (simp add: finishSyncExecution_trace)
  show ?thesis
  proof (cases pe)
    case (Some e)
    with assms mode show ?thesis by (simp add: executeAsyncCall_parse_error)
  next
    case None
    show ?thesis
    proof (cases m)
      case SyncExecution
      show ?thesis
      proof (cases v)
        case None
        with assms mode fwd \<open>pe = None\<close> SyncExecution q1 show ?thesis
          by (simp add: executeAsyncCall_sync_nil)
      next
        case (Some vo)
        obtain cv ce h2 where e2:
          "executeSyncCallback env (UpdateStatus (ReturnCode vo) c) vo err h1 = ((cv, ce), h2)"
          by (cases "executeSyncCallback env (UpdateStatus (ReturnCode vo) c) vo err h1") auto
        from assms mode fwd \<open>pe = None\<close> SyncExecution Some e2
        have "h' = finishSyncExecution env cv ce h2"
          by (simp add: executeAsyncCall_sync)
        with cb [OF e2] show ?thesis by simp
      qed
    next
      case AsyncBuiltinFunc
      show ?thesis
      proof (cases s)
        case True
        with assms mode \<open>pe = None\<close> AsyncBuiltinFunc show ?thesis
          by (simp add: executeAsyncCall_skip)
      next
        case False
        show ?thesis
        proof (cases err)
          case (Some e)
          with assms mode fwd \<open>pe = None\<close> AsyncBuiltinFunc False q1 show ?thesis
            by (simp add: executeAsyncCall_builtin_error)
        next
          case None
          show ?thesis
          proof (cases v)
            case None
            with assms mode fwd \<open>pe = None\<close> \<open>err = None\<close> AsyncBuiltinFunc False q1 show ?thesis
              by (simp add: executeAsyncCall_builtin_nil)
          next
            case (Some vo)
            show ?thesis
            proof (cases "ReturnCode vo = Ok")
              case True
              with assms mode fwd \<open>pe = None\<close> \<open>err = None\<close> AsyncBuiltinFunc \<open>\<not> s\<close> Some q1
              show ?thesis by (simp add: executeAsyncCall_builtin_ok)
            next
              case rc: False
              obtain cv ce h2 where e2:
                "executeSyncCallback env (UpdateStatus (ReturnCode vo) c) vo None h1 = ((cv, ce), h2)"
                by (cases "executeSyncCallback env (UpdateStatus (ReturnCode vo) c) vo None h1") auto
              from assms mode fwd \<open>pe = None\<close> \<open>err = None\<close> AsyncBuiltinFunc \<open>\<not> s\<close> Some rc e2
              have "h' = finishSyncExecution env cv ce h2"
                by (simp add: executeAsyncCall_builtin_failed)
              with cb [OF e2] show ?thesis by simp
            qed
          qed
        qed
      qed
    next
      case AsyncUnknown
      show ?thesis
      proof (cases s)
        case True
        with assms mode \<open>pe = None\<close> AsyncUnknown show ?thesis
          by (simp add: executeAsyncCall_skip)
      next
        case False
        with assms mode snd \<open>pe = None\<close> AsyncUnknown qt show ?thesis
          by (simp add: executeAsyncCall_unknown)
      qed
    qed
  qed
qed

lemma executeAsyncCalls_quiet:
  "executeAsyncCalls env s cs h = (r, h', cs') \<Longrightarrow>
   storageWrites (trace h') = storageWrites (trace h) \<and> groupCallbacks (trace h') = groupCallbacks (trace h)"
proof (induction cs arbitrary: h r h' cs')
  case Nil
  then show ?case by simp
next
  case (Cons c cs)
  obtain r1 h1 c1 where e: "executeAsyncCall env c s h = (r1, h1, c1)"
    by (cases "executeAsyncCall env c s h") auto
  note q = executeAsyncCall_quiet [OF e]
  show ?case
  proof (cases "r1 = Inr None")
    case True
    obtain r2 h2 cs2 where e2: "executeAsyncCalls env s cs h1 = (r2, h2, cs2)"
      by (cases "executeAsyncCalls env s cs h1") auto
    from Cons.prems e True e2 have "h' = h2" by simp
    with Cons.IH [OF e2] q show ?thesis by simp
  next
    case False
    with Cons.prems e have "h' = h1"
      by (auto split: sum.splits option.splits)
    with q show ?thesis by simp
  qed
qed


subsection \<open>Group executor\<close>

lemma executeAsyncCallGroup_error:
  "executeAsyncCalls env s (AsyncCalls g) h = (r, h1, cs) \<Longrightarrow> r \<noteq> Inr None \<Longrightarrow>
   executeAsyncCallGroup env g s h = (r, h1, g\<lparr>AsyncCalls := cs\<rparr>)"
  by (auto simp: executeAsyncCallGroup_def split: sum.splits option.splits)

lemma executeAsyncCallGroup_done:
  "executeAsyncCalls env s (AsyncCalls g) h = (Inr None, h1, cs) \<Longrightarrow>
   executeAsyncCallGroup env g s h =
     (Inr None,
      (if group_IsCompleted (DeleteCompletedAsyncCalls (g\<lparr>AsyncCalls := cs\<rparr>))
       then emit (EvGroupCallback (DeleteCompletedAsyncCalls (g\<lparr>AsyncCalls := cs\<rparr>))) (world h1) h1
       else h1),
      DeleteCompletedAsyncCalls (g\<lparr>AsyncCalls := cs\<rparr>))"
  by (simp add: executeAsyncCallGroup_def executeAsyncCallGroupCallback_def Let_def)

lemma executeAsyncCallGroup_callbacks:
  assumes "executeAsyncCallGroup env g s h = (r, h', g')"
  shows "groupCallbacks (trace h') =
           groupCallbacks (trace h) @ (if r = Inr None \<and> group_IsCompleted g' then [g'] else [])"
    and "storageWrites (trace h') = storageWrites (trace h)"
    and "Identifier g' = Identifier g"
proof -
  obtain r1 h1 cs where e: "executeAsyncCalls env s (AsyncCalls g) h = (r1, h1, cs)"
    by (cases "executeAsyncCalls env s (AsyncCalls g) h") auto
  note q = executeAsyncCalls_quiet [OF e]
  have "groupCallbacks (trace h') =
           groupCallbacks (trace h) @ (if r = Inr None \<and> group_IsCompleted g' then [g'] else [])
      \<and> storageWrites (trace h') = storageWrites (trace h) \<and> Identifier g' = Identifier g"
  proof (cases "r1 = Inr None")
    case True
    with assms e q show ?thesis
      by (auto simp: executeAsyncCallGroup_done DeleteCompletedAsyncCalls_def)
  next
    case False
    with assms e q show ?thesis
      by (auto simp: executeAsyncCallGroup_error)
  qed
  then show "groupCallbacks (trace h') =
           groupCallbacks (trace h) @ (if r = Inr None \<and> group_IsCompleted g' then [g'] else [])"
    and "storageWrites (trace h') = storageWrites (trace h)"
    and "Identifier g' = Identifier g"
    by simp_all
qed

lemma executeAsyncCallGroup_pruned:
  assumes "executeAsyncCallGroup env g s h = (Inr None, h', g')"
  shows "list_all (\<lambda>c. Status c = Pending) (AsyncCalls g')"
proof -
  obtain r1 h1 cs where e: "executeAsyncCalls env s (AsyncCalls g) h = (r1, h1, cs)"
    by (cases "executeAsyncCalls env s (AsyncCalls g) h") auto
  show ?thesis
  proof (cases "r1 = Inr None")
    case True
    with assms e show ?thesis
      by (auto simp: executeAsyncCallGroup_done DeleteCompletedAsyncCalls_def list_all_iff)
  next
    case False
    with assms e show ?thesis
      by (auto simp: executeAsyncCallGroup_error)
  qed
qed

subsection \<open>Sweeps\<close>

lemma sweepSync_facts:
  "sweepSync env gs h = (r, h', gs') \<Longrightarrow>
   storageWrites (trace h') = storageWrites (trace h) \<and>
   set (map Identifier gs') \<subseteq> set (map Identifier gs) \<and>
   (distinct (map Identifier gs) \<longrightarrow> distinct (map Identifier gs'))"
proof (induction gs arbitrary: h r h' gs')
  case Nil
  then show ?case by simp
next
  case (Cons g gs)
  obtain r1 h1 g1 where e: "executeAsyncCallGroup env g True h = (r1, h1, g1)"
    by (cases "executeAsyncCallGroup env g True h") auto
  note q = executeAsyncCallGroup_callbacks(2,3) [OF e]
  show ?case
  proof (cases "r1 = Inr None")
    case True
    obtain r2 h2 gs2 where e2: "sweepSync env gs h1 = (r2, h2, gs2)"
      by (cases "sweepSync env gs h1") auto
    from Cons.prems e True e2
    have h': "h' = h2" and gs': "gs' = (if group_IsCompleted g1 then gs2 else g1 # gs2)"
      by simp_all
    from Cons.IH [OF e2] q h' gs' show ?thesis by auto
  next
    case False
    with Cons.prems e have "h' = h1" "gs' = g1 # gs"
      by (auto split: sum.splits option.splits)
    with q show ?thesis by simp
  qed
qed

lemma sweepAsync_facts:
  "sweepAsync env gs h = (r, h', gs') \<Longrightarrow>
   storageWrites (trace h') = storageWrites (trace h) \<and>
   map Identifier gs' = map Identifier gs"
proof (induction gs arbitrary: h r h' gs')
  case Nil
  then show ?case by simp
next
  case (Cons g gs)
  obtain r1 h1 g1 where e: "executeAsyncCallGroup env g False h = (r1, h1, g1)"
    by (cases "executeAsyncCallGroup env g False h") auto
  note q = executeAsyncCallGroup_callbacks(2,3) [OF e]
  show ?case
  proof (cases "r1 = Inr None")
    case True
    obtain r2 h2 gs2 where e2: "sweepAsync env gs h1 = (r2, h2, gs2)"
      by (cases "sweepAsync env gs h1") auto
    from Cons.prems e True e2 have h': "h' = h2" and gs': "gs' = g1 # gs2"
      by simp_all
    from Cons.IH [OF e2] q h' gs' show ?thesis by auto
  next
    case False
    with Cons.prems e have "h' = h1" "gs' = g1 # gs"
      by (auto split: sum.splits option.splits)
    with q show ?thesis by simp
  qed
qed

subsection \<open>Persistence\<close>

lemma saveAsyncContext_writes:
  assumes "saveAsyncContext env ctx h = (e, h')"
  shows "(AsyncCallGroups ctx = [] \<and> e = None \<and> h' = h) \<or>
         (AsyncCallGroups ctx \<noteq> [] \<and> (\<exists>err. Marshal env ctx = Inl err \<and> e = Some err \<and> h' = h)) \<or>
         (AsyncCallGroups ctx \<noteq> [] \<and>
          (\<exists>data. Marshal env ctx = Inr data \<and>
             trace h' = trace h @
               [EvSetStorage (CustomStorageKey (AsyncDataPrefix env) (GetPrevTxHash env)) data]))"
  using assms
  by (auto simp: saveAsyncContext_def Let_def split: if_splits sum.splits prod.splits)

subsection \<open>Context driver\<close>

lemma sumCalls_Some_frame:
  "sumCalls gl n z cs = (e, n', z', cs') \<Longrightarrow> length cs' = length cs"
  using sumCalls_frame [of gl n z cs e n' z' cs'] by (simp add: list_all2_lengthD)

lemma sumGroups_frame:
  "sumGroups gl n z gs = (e, n', z', gs') \<Longrightarrow> list_all2 groupGasLimitOnly gs gs'"
proof (induction gs arbitrary: n z e n' z' gs')
  case Nil
  then show ?case by simp
next
  case (Cons g gs)
  obtain e1 n1 z1 cs1 where c: "sumCalls gl n z (AsyncCalls g) = (e1, n1, z1, cs1)"
    by (cases "sumCalls gl n z (AsyncCalls g)") auto
  have g1: "groupGasLimitOnly g (g\<lparr>AsyncCalls := cs1\<rparr>)"
    using sumCalls_frame [OF c] by (simp add: groupGasLimitOnly_def)
  have refl: "list_all2 groupGasLimitOnly gs gs"
    by (simp add: list_all2_refl groupGasLimitOnly_def)
  show ?case
  proof (cases e1)
    case (Some err)
    with Cons.prems c have "gs' = g\<lparr>AsyncCalls := cs1\<rparr> # gs" by simp
    with g1 refl show ?thesis by simp
  next
    case None
    obtain e2 n2 z2 gs2 where s: "sumGroups gl n1 z1 gs = (e2, n2, z2, gs2)"
      by (cases "sumGroups gl n1 z1 gs") auto
    with Cons.prems c None have "gs' = g\<lparr>AsyncCalls := cs1\<rparr> # gs2" by simp
    with g1 Cons.IH [OF s] show ?thesis by simp
  qed
qed

lemma groupGasLimitOnly_Identifier:
  "list_all2 groupGasLimitOnly gs gs' \<Longrightarrow> map Identifier gs' = map Identifier gs"
proof (induction gs gs' rule: list_all2_induct)
  case Nil
  then show ?case by simp
next
  case (Cons g gs g' gs')
  from Cons.hyps(1) have "Identifier g' = Identifier (g\<lparr>AsyncCalls := AsyncCalls g'\<rparr>)"
    by (simp add: groupGasLimitOnly_def)
  with Cons.IH show ?case by simp
qed

lemma shareGroups_Identifier: "map Identifier (shareGroups share gs) = map Identifier gs"
  by (simp add: shareGroups_def comp_def)

lemma setupAsyncCallsGas_Identifier:
  assumes "setupAsyncCallsGas env h ctx = (e, ctx')"
  shows "map Identifier (AsyncCallGroups ctx') = map Identifier (AsyncCallGroups ctx)"
proof -
  obtain e1 n1 z1 gs1 where s: "sumGroups (GasLeft env (world h)) 0 0 (AsyncCallGroups ctx) = (e1, n1, z1, gs1)"
    by (cases "sumGroups (GasLeft env (world h)) 0 0 (AsyncCallGroups ctx)") auto
  have i: "map Identifier gs1 = map Identifier (AsyncCallGroups ctx)"
    using sumGroups_frame [OF s] by (rule groupGasLimitOnly_Identifier)
  from assms s have "AsyncCallGroups ctx' = gs1 \<or> (\<exists>share. AsyncCallGroups ctx' = shareGroups share gs1)"
    by (auto simp: setupAsyncCallsGas_def Let_def split: option.splits if_splits)
  with i show ?thesis by (auto simp: shareGroups_Identifier)
qed

lemma setupAsyncCallsGas_failure_frame:
  assumes "setupAsyncCallsGas env h ctx = (Some e, ctx')"
  shows "e = ErrNotEnoughGas \<and> contextGasLimitOnly ctx ctx'"
proof -
  obtain e1 n1 z1 gs1 where s: "sumGroups (GasLeft env (world h)) 0 0 (AsyncCallGroups ctx) = (e1, n1, z1, gs1)"
    by (cases "sumGroups (GasLeft env (world h)) 0 0 (AsyncCallGroups ctx)") auto
  from assms s have c: "ctx' = ctx\<lparr>AsyncCallGroups := gs1\<rparr>"
    by (auto simp: setupAsyncCallsGas_def Let_def split: option.splits if_splits)
  from assms s have "e = ErrNotEnoughGas"
    by (auto simp: setupAsyncCallsGas_def Let_def split: option.splits if_splits dest: sumGroups_error)
  with c sumGroups_frame [OF s] show ?thesis
    by (simp add: contextGasLimitOnly_def)
qed

lemma deleteGroupByID_subset:
  "set (deleteGroupByID gid gs) \<subseteq> set gs"
  by (induction gs) auto

lemma deleteGroupByID_absent:
  "distinct (map Identifier gs) \<Longrightarrow> gid \<notin> Identifier ` set (deleteGroupByID gid gs)"
proof (induction gs)
  case Nil
  then show ?case by simp
next
  case (Cons g gs)
  then show ?case by auto
qed

lemma executeCurrentAsyncContext_cases:
  assumes "executeCurrentAsyncContext env ctx h = (r, h', ctx')"
  shows "(context_IsCompleted ctx \<and> r = Inr None \<and> h' = h \<and> ctx' = ctx)
       \<or> (\<not> context_IsCompleted ctx \<and> (\<exists>err. setupAsyncCallsGas env h ctx = (Some err, ctx') \<and> r = Inr (Some err) \<and> h' = h))
       \<or> (\<exists>ctx1 gs1. setupAsyncCallsGas env h ctx = (None, ctx1) \<and>
             sweepSync env (AsyncCallGroups ctx1) h = (r, h', gs1) \<and> r \<noteq> Inr None \<and>
             ctx' = ctx1\<lparr>AsyncCallGroups := gs1\<rparr>)
       \<or> (\<exists>ctx1 gs1 err. setupAsyncCallsGas env h ctx = (None, ctx1) \<and>
             sweepSync env (AsyncCallGroups ctx1) h = (Inr None, h', gs1) \<and>
             setupAsyncCallsGas env h' (ctx1\<lparr>AsyncCallGroups := gs1\<rparr>) = (Some err, ctx') \<and>
             r = Inr (Some err))
       \<or> (\<exists>ctx1 h1 gs1 ctx2 gs2. setupAsyncCallsGas env h ctx = (None, ctx1) \<and>
             sweepSync env (AsyncCallGroups ctx1) h = (Inr None, h1, gs1) \<and>
             setupAsyncCallsGas env h1 (ctx1\<lparr>AsyncCallGroups := gs1\<rparr>) = (None, ctx2) \<and>
             sweepAsync env (AsyncCallGroups ctx2) h1 = (r, h', gs2) \<and> r \<noteq> Inr None \<and>
             ctx' = ctx2\<lparr>AsyncCallGroups := gs2\<rparr>)
       \<or> (\<not> context_IsCompleted ctx \<and>
           (\<exists>ctx1 h1 gs1 ctx2 h2 gs2 e. setupAsyncCallsGas env h ctx = (None, ctx1) \<and>
             sweepSync env (AsyncCallGroups ctx1) h = (Inr None, h1, gs1) \<and>
             setupAsyncCallsGas env h1 (ctx1\<lparr>AsyncCallGroups := gs1\<rparr>) = (None, ctx2) \<and>
             sweepAsync env (AsyncCallGroups ctx2) h1 = (Inr None, h2, gs2) \<and>
             ctx' = DeleteAsyncCallGroupByID (LegacyAsyncCallGroupID env) (ctx2\<lparr>AsyncCallGroups := gs2\<rparr>) \<and>
             saveAsyncContext env ctx' h2 = (e, h') \<and> r = Inr e))"
proof (cases "context_IsCompleted ctx")
  case True
  with assms show ?thesis by (simp add: executeCurrentAsyncContext_def)
next
  case nc: False
  obtain e1 ctx1 where s1: "setupAsyncCallsGas env h ctx = (e1, ctx1)"
    by (cases "setupAsyncCallsGas env h ctx") auto
  show ?thesis
  proof (cases e1)
    case (Some err)
    with assms nc s1 show ?thesis by (simp add: executeCurrentAsyncContext_def)
  next
    case None
    obtain r1 h1 gs1 where w1: "sweepSync env (AsyncCallGroups ctx1) h = (r1, h1, gs1)"
      by (cases "sweepSync env (AsyncCallGroups ctx1) h") auto
    show ?thesis
    proof (cases "r1 = Inr None")
      case False
      with assms nc s1 None w1 have "r = r1 \<and> h' = h1 \<and> ctx' = ctx1\<lparr>AsyncCallGroups := gs1\<rparr>"
        by (auto simp: executeCurrentAsyncContext_def split: sum.splits option.splits)
      with s1 None w1 False show ?thesis by simp
    next
      case True
      obtain e2 ctx2 where s2: "setupAsyncCallsGas env h1 (ctx1\<lparr>AsyncCallGroups := gs1\<rparr>) = (e2, ctx2)"
        by (cases "setupAsyncCallsGas env h1 (ctx1\<lparr>AsyncCallGroups := gs1\<rparr>)") auto
      show ?thesis
      proof (cases e2)
        case (Some err)
        with assms nc s1 \<open>e1 = None\<close> w1 True s2
        have "r = Inr (Some err) \<and> h' = h1 \<and> ctx' = ctx2"
          by (simp add: executeCurrentAsyncContext_def)
        with s1 \<open>e1 = None\<close> w1 True s2 Some show ?thesis by simp
      next
        case e2n: None
        obtain r2 h2 gs2 where w2: "sweepAsync env (AsyncCallGroups ctx2) h1 = (r2, h2, gs2)"
          by (cases "sweepAsync env (AsyncCallGroups ctx2) h1") auto
        show ?thesis
        proof (cases "r2 = Inr None")
          case False
          with assms nc s1 \<open>e1 = None\<close> w1 True s2 e2n w2
          have "r = r2 \<and> h' = h2 \<and> ctx' = ctx2\<lparr>AsyncCallGroups := gs2\<rparr>"
            by (auto simp: executeCurrentAsyncContext_def split: sum.splits option.splits)
          with s1 \<open>e1 = None\<close> w1 True s2 e2n w2 False show ?thesis by auto
        next
          case r2n: True
          let ?c3 = "DeleteAsyncCallGroupByID (LegacyAsyncCallGroupID env) (ctx2\<lparr>AsyncCallGroups := gs2\<rparr>)"
          obtain e h3 where sv: "saveAsyncContext env ?c3 h2 = (e, h3)"
            by (cases "saveAsyncContext env ?c3 h2") auto
          with assms nc s1 \<open>e1 = None\<close> w1 True s2 e2n w2 r2n
          have "r = Inr e \<and> h' = h3 \<and> ctx' = ?c3"
            by (simp add: executeCurrentAsyncContext_def Let_def)
          with nc s1 \<open>e1 = None\<close> w1 True s2 e2n w2 r2n sv show ?thesis by auto
        qed
      qed
    qed
  qed
qed


subsection \<open>Evaluating concrete runs\<close>

lemma ex_env_simps [simp]:
  "ParseData ex_env = ex_parse"
  "GetShardOfAddress ex_env = length"
  "IsBuiltinFunctionName ex_env = (\<lambda>f. f = ''fail'' \<or> f = ''builtin'')"
  "AsyncCallStep ex_env = 10"
  "DataCopyPerByte ex_env = 1"
  "GetSCAddress ex_env = ''sc''"
  "GasPrice ex_env = 1"
  "GetCurrentTxHash ex_env = ''cur''"
  "GetOriginalTxHash ex_env = ''orig''"
  "GetPrevTxHash ex_env = ''prev''"
  "AsyncDataPrefix ex_env = ''ASYNC''"
  "LegacyAsyncCallGroupID ex_env = ''Legacy''"
  "GasLeft ex_env = (\<lambda>w. w)"
  "UseGas ex_env = (\<lambda>gas w. w - gas)"
  "FailExecution ex_env = (\<lambda>e w. w)"
  "Transfer ex_env = (\<lambda>a w. (None, w))"
  "ExecuteOnDestContext ex_env = ex_exec"
  "SetStorage ex_env = (\<lambda>k d w. (None, w))"
  "Marshal ex_env = (\<lambda>ctx. Inr (concat (map Identifier (AsyncCallGroups ctx))))"
  "CreateVMOutputInCaseOfError ex_env =
     (\<lambda>e w. \<lparr>ReturnCode = 10, ReturnData = [], ReturnMessage = ''not enough gas'', GasRemaining = 0\<rparr>)"
  "SetReturnMessage ex_env = (\<lambda>m w. w)"
  "Finish ex_env = (\<lambda>b w. w)"
  "SetGasProvided ex_env = (\<lambda>gas w. w)"
  "ReturnCodeString ex_env = (\<lambda>rc. if rc = 0 then ''ok'' else ''failed'')"
  by (simp_all add: ex_env_def)

lemmas run_defs =
  executeCurrentAsyncContext_def context_IsCompleted_def setupAsyncCallsGas_def AddUint64_def
  shareGroups_def shareCall_def executeAsyncCallGroup_def executeAsyncCallGroupCallback_def
  executeAsyncCall_def determineAsyncCallExecutionMode_def determineExecutionMode_def
  executeSyncCall_def executeSyncCallback_def createSyncCallInput_def createSyncCallbackInput_def
  callbackArguments_def callbackGasToUse_def computeDataLengthFromArguments_def
  callExecuteOnDestContext_def finishSyncExecution_def sendAsyncCallCrossShard_def
  saveAsyncContext_def CustomStorageKey_def DeleteAsyncCallGroupByID_def
  DeleteCompletedAsyncCalls_def group_IsCompleted_def UpdateStatus_def GetCallbackName_def
  returnCodeBytes_def be_nat_def Ok_def emit_def Let_def
  ex_parse_def ex_exec_def ex_host_def ex_call_def ex_group_def ex_context_def

lemma be_bytes_0 [simp]: "be_bytes 0 = []"
  by (simp add: be_bytes.simps)

lemma char_of_4: "char_of (4::nat) = CHR 0x04"
  by code_simp

lemma be_bytes_4 [simp]: "be_bytes 4 = [CHR 0x04]"
  by (simp add: be_bytes.simps [of 4] char_of_4)

lemmas ex_defs =
  ex_ctx_remote_def ex_ctx_legacy_def ex_ctx_short_def ex_grp_sync_def ex_call_invalid_def
  ex_ctx_invalid_def ex_call_lowgas_def ex_call_builtin_fail_def ex_call_step_def ex_ctx_step_def


subsection \<open>The claims\<close>

lemma computeDataLength_foldl:
  "foldl (\<lambda>dataLength element. dataLength + length element) n arguments =
   n + sum_list (map length arguments)"
  by (induction arguments arbitrary: n) simp_all

lemma length_flatEncoding:
  "length (flatEncoding f args) = length f + length args + sum_list (map length args)"
  by (induction args) (simp_all add: flatEncoding_def)

text \<open>
  Claim C2. When \<^verbatim>\<open>executeCurrentAsyncContext\<close> returns without error, either no group
  remains in the context and the driver has written nothing to storage, or at least one
  group remains and the driver has made exactly one storage write: to the key
  \<open>AsyncDataPrefix\<close> followed by the previous transaction hash, with the serialization
  of the residual context as its value. Storage writes are those the driver itself makes;
  what a nested execution does inside the bytecode executor is the collaborators' state.
\<close>

theorem C2_one_storage_write:
  assumes "executeCurrentAsyncContext env ctx h = (Inr None, h', ctx')"
  shows "(AsyncCallGroups ctx' = [] \<and> storageWrites (trace h') = storageWrites (trace h)) \<or>
         (AsyncCallGroups ctx' \<noteq> [] \<and>
          (\<exists>data. Marshal env ctx' = Inr data \<and>
             storageWrites (trace h') =
               storageWrites (trace h) @
                 [(CustomStorageKey (AsyncDataPrefix env) (GetPrevTxHash env), data)]))"
proof -
  from executeCurrentAsyncContext_cases [OF assms]
  consider (completed) "context_IsCompleted ctx" "h' = h" "ctx' = ctx"
    | (saved) ctx1 ctx2 :: AsyncContext and h1 gs1 h2 gs2 where
        "sweepSync env (AsyncCallGroups ctx1) h = (Inr None, h1, gs1)"
        "sweepAsync env (AsyncCallGroups ctx2) h1 = (Inr None, h2, gs2)"
        "saveAsyncContext env ctx' h2 = (None, h')"
    by auto
  then show ?thesis
  proof cases
    case completed
    then show ?thesis by (simp add: context_IsCompleted_def)
  next
    case saved
    from sweepSync_facts [OF saved(1)] sweepAsync_facts [OF saved(2)]
    have w: "storageWrites (trace h2) = storageWrites (trace h)" by simp
    from saveAsyncContext_writes [OF saved(3)] w show ?thesis by auto
  qed
qed

text \<open>The theorem at a concrete run.\<close>

theorem C2_one_storage_write_witness:
  "fst (executeCurrentAsyncContext ex_env ex_ctx_remote (ex_host 1000)) = Inr None
   \<and> AsyncCallGroups (snd (snd (executeCurrentAsyncContext ex_env ex_ctx_remote (ex_host 1000)))) \<noteq> []
   \<and> storageWrites (trace (fst (snd (executeCurrentAsyncContext ex_env ex_ctx_remote (ex_host 1000))))) =
       [(''ASYNCprev'', ''g'')]"
proof -
  obtain r H C where run: "executeCurrentAsyncContext ex_env ex_ctx_remote (ex_host 1000) = (r, H, C)"
    by (cases "executeCurrentAsyncContext ex_env ex_ctx_remote (ex_host 1000)") auto
  from run have r: "r = Inr None" and g: "AsyncCallGroups C \<noteq> []" and m: "Marshal ex_env C = Inr ''g''"
    by (auto simp: run_defs ex_defs)
  from C2_one_storage_write [OF run [unfolded r]] g m
  have "storageWrites (trace H) = storageWrites (trace (ex_host 1000)) @ [(''ASYNCprev'', ''g'')]"
    by (simp add: CustomStorageKey_def)
  with run r g show ?thesis by (simp add: ex_host_def)
qed

text \<open>
  Claim C3. The comment in \<^verbatim>\<open>executeAsyncCall\<close> says that the output returned by
  \<^verbatim>\<open>executeSyncCall\<close> is never nil. It is nil when \<^verbatim>\<open>createSyncCallInput\<close> fails: for a
  same-shard call whose gas limit does not exceed \<open>AsyncCallStep\<close> the executor is never
  invoked, \<^verbatim>\<open>executeSyncCall\<close> returns nil with \<open>ErrNotEnoughGas\<close>, and reading the
  return code panics, also when the call is reached through the driver.
\<close>

theorem C3_nil_vmOutput_is_dereferenced:
  "determineAsyncCallExecutionMode ex_env ex_call_step = (SyncExecution, None)
   \<and> executeSyncCall ex_env ex_call_step (ex_host 1000) = ((None, Some ErrNotEnoughGas), ex_host 1000)
   \<and> fst (executeAsyncCall ex_env ex_call_step True (ex_host 1000)) = Inl NilPointerDereference
   \<and> fst (executeCurrentAsyncContext ex_env ex_ctx_step (ex_host 1000)) = Inl NilPointerDereference"
  by (simp add: run_defs ex_defs)

text \<open>
  Claim C4, as amended. The group executor invokes the group-level callback, once and on
  the pruned group, exactly when every call of the group has been executed without error
  and the group is completed after pruning. The flag \<open>syncOnly\<close> plays no part in it.
\<close>

theorem C4_group_callback:
  assumes "executeAsyncCallGroup env g s h = (r, h', g')"
  shows "groupCallbacks (trace h') =
           groupCallbacks (trace h) @ (if r = Inr None \<and> group_IsCompleted g' then [g'] else [])"
  using assms by (rule executeAsyncCallGroup_callbacks(1))

text \<open>The theorem at a concrete run.\<close>

theorem C4_group_callback_witness:
  "fst (executeAsyncCallGroup ex_env ex_grp_sync True (ex_host 1000)) = Inr None
   \<and> group_IsCompleted (snd (snd (executeAsyncCallGroup ex_env ex_grp_sync True (ex_host 1000))))
   \<and> groupCallbacks (trace (fst (snd (executeAsyncCallGroup ex_env ex_grp_sync True (ex_host 1000))))) =
       [snd (snd (executeAsyncCallGroup ex_env ex_grp_sync True (ex_host 1000)))]"
proof -
  obtain r H G where run: "executeAsyncCallGroup ex_env ex_grp_sync True (ex_host 1000) = (r, H, G)"
    by (cases "executeAsyncCallGroup ex_env ex_grp_sync True (ex_host 1000)") auto
  from run have r: "r = Inr None" and g: "group_IsCompleted G"
    by (auto simp: run_defs ex_defs)
  from C4_group_callback [OF run] r g have "groupCallbacks (trace H) = [G]"
    by (simp add: ex_host_def)
  with run r g show ?thesis by simp
qed

text \<open>A completed group executed with \<open>syncOnly = False\<close>: the callback is invoked.\<close>

theorem C4_callback_without_syncOnly_counterexample:
  "group_IsCompleted (snd (snd (executeAsyncCallGroup ex_env ex_grp_sync False (ex_host 1000))))
   \<and> groupCallbacks (trace (fst (snd (executeAsyncCallGroup ex_env ex_grp_sync False (ex_host 1000))))) =
       [ex_group ''g'' []]"
  by (simp add: run_defs ex_defs)

text \<open>
  Claim C5, as amended. For a same-shard call whose forward result has been applied, if
  building the callback input fails with \<open>ErrNotEnoughGas\<close> then no callback runs, and
  the per-call executor returns success: the error goes to \<^verbatim>\<open>finishSyncExecution\<close>, which
  zeroes the provided gas, publishes the return message of the output made from the error,
  and appends two finish entries, the stringified return code and the current transaction
  hash.
\<close>

theorem C5_callback_build_failure_is_swallowed:
  assumes "determineAsyncCallExecutionMode env c = (SyncExecution, None)"
    and "executeSyncCall env c h = ((Some v, err), h1)"
    and "createSyncCallbackInput env (UpdateStatus (ReturnCode v) c) v err = Inl ErrNotEnoughGas"
  shows "executeAsyncCall env c s h =
           (Inr None, finishSyncExecution env None (Some ErrNotEnoughGas) h1,
            UpdateStatus (ReturnCode v) c)
       \<and> executions (trace (finishSyncExecution env None (Some ErrNotEnoughGas) h1)) =
           executions (trace h1)
       \<and> trace (finishSyncExecution env None (Some ErrNotEnoughGas) h1) =
           trace h1 @
             [EvSetGasProvided 0,
              EvSetReturnMessage (ReturnMessage
                (CreateVMOutputInCaseOfError env ErrNotEnoughGas (SetGasProvided env 0 (world h1)))),
              EvFinish (ReturnCodeString env (ReturnCode
                (CreateVMOutputInCaseOfError env ErrNotEnoughGas (SetGasProvided env 0 (world h1))))),
              EvFinish (GetCurrentTxHash env)]"
proof -
  from assms(3)
  have cb: "executeSyncCallback env (UpdateStatus (ReturnCode v) c) v err h1 =
              ((None, Some ErrNotEnoughGas), h1)"
    by (simp add: executeSyncCallback_def)
  from executeAsyncCall_sync [OF assms(1,2) cb]
  have "executeAsyncCall env c s h =
           (Inr None, finishSyncExecution env None (Some ErrNotEnoughGas) h1,
            UpdateStatus (ReturnCode v) c)" .
  then show ?thesis
    by (simp add: finishSyncExecution_trace) (simp add: finishSyncExecution_def Let_def)
qed

text \<open>The theorem at a concrete run.\<close>

theorem C5_callback_build_failure_is_swallowed_witness:
  "determineAsyncCallExecutionMode ex_env ex_call_lowgas = (SyncExecution, None)
   \<and> createSyncCallbackInput ex_env (UpdateStatus 0 ex_call_lowgas)
        \<lparr>ReturnCode = 0, ReturnData = [], ReturnMessage = [], GasRemaining = 10\<rparr> None =
       Inl ErrNotEnoughGas
   \<and> fst (executeAsyncCall ex_env ex_call_lowgas True (ex_host 1000)) = Inr None
   \<and> map Function (executions (trace (fst (snd (executeAsyncCall ex_env ex_call_lowgas True (ex_host 1000)))))) =
       [''f'']"
proof -
  let ?v = "\<lparr>ReturnCode = 0, ReturnData = [], ReturnMessage = [], GasRemaining = 10\<rparr>"
  have m: "determineAsyncCallExecutionMode ex_env ex_call_lowgas = (SyncExecution, None)"
    by (simp add: run_defs ex_defs)
  obtain h1 where fwd: "executeSyncCall ex_env ex_call_lowgas (ex_host 1000) = ((Some ?v, None), h1)"
    and t: "map Function (executions (trace h1)) = [''f'']"
    by (simp add: run_defs ex_defs)
  have cb: "createSyncCallbackInput ex_env (UpdateStatus (ReturnCode ?v) ex_call_lowgas) ?v None =
      Inl ErrNotEnoughGas"
    by (simp add: run_defs ex_defs)
  from C5_callback_build_failure_is_swallowed [OF m fwd cb, of True] m cb t
  show ?thesis by simp
qed

text \<open>The callback input cannot be built, and the per-call executor returns nil.\<close>

theorem C5_error_not_returned_counterexample:
  "createSyncCallbackInput ex_env (UpdateStatus 0 ex_call_lowgas)
        \<lparr>ReturnCode = 0, ReturnData = [], ReturnMessage = [], GasRemaining = 10\<rparr> None =
       Inl ErrNotEnoughGas
   \<and> fst (executeSyncCall ex_env ex_call_lowgas (ex_host 1000)) =
       (Some \<lparr>ReturnCode = 0, ReturnData = [], ReturnMessage = [], GasRemaining = 10\<rparr>, None)
   \<and> fst (executeAsyncCall ex_env ex_call_lowgas True (ex_host 1000)) = Inr None"
  by (simp add: run_defs ex_defs)

text \<open>
  Claim C6, as amended. For a call to a remote-shard built-in function whose local
  execution returns a return code other than Ok and no error, the per-call executor returns
  success and the call's status becomes \<open>ResolvedFailed\<close>; the callback input carries
  the minimal big-endian bytes of the return code followed by the return data entries in
  order (the forward error being nil), and the callback runs with these arguments when its
  fee can be paid, and does not run otherwise; and the call is in no group that the group
  executor returns with success.
\<close>

theorem C6_remote_builtin_failure:
  assumes "determineAsyncCallExecutionMode env c = (AsyncBuiltinFunc, None)"
    and "executeSyncCall env c h = ((Some v, None), h1)"
    and "ReturnCode v \<noteq> Ok"
  shows "fst (executeAsyncCall env c False h) = Inr None
       \<and> snd (snd (executeAsyncCall env c False h)) = UpdateStatus (ReturnCode v) c
       \<and> Status (UpdateStatus (ReturnCode v) c) = ResolvedFailed
       \<and> (case createSyncCallbackInput env (UpdateStatus (ReturnCode v) c) v None of
             Inl e \<Rightarrow>
               executions (trace (fst (snd (executeAsyncCall env c False h)))) = executions (trace h1)
           | Inr i \<Rightarrow>
               Arguments i = returnCodeBytes (ReturnCode v) # ReturnData v \<and>
               executions (trace (fst (snd (executeAsyncCall env c False h)))) =
                 executions (trace h1) @ [i])
       \<and> (\<forall>g s h0 hf g'. executeAsyncCallGroup env g s h0 = (Inr None, hf, g') \<longrightarrow>
             UpdateStatus (ReturnCode v) c \<notin> set (AsyncCalls g'))"
proof -
  let ?c = "UpdateStatus (ReturnCode v) c"
  obtain cv ce h2 where cb: "executeSyncCallback env ?c v None h1 = ((cv, ce), h2)"
    by (cases "executeSyncCallback env ?c v None h1") auto
  from executeAsyncCall_builtin_failed [OF assms cb]
  have run: "executeAsyncCall env c False h = (Inr None, finishSyncExecution env cv ce h2, ?c)" .
  from assms(3) have st: "Status ?c = ResolvedFailed"
    by (simp add: UpdateStatus_def)
  have ex: "case createSyncCallbackInput env ?c v None of
             Inl e \<Rightarrow> executions (trace (finishSyncExecution env cv ce h2)) = executions (trace h1)
           | Inr i \<Rightarrow>
               Arguments i = returnCodeBytes (ReturnCode v) # ReturnData v \<and>
               executions (trace (finishSyncExecution env cv ce h2)) = executions (trace h1) @ [i]"
  proof (cases "createSyncCallbackInput env ?c v None")
    case (Inl e)
    with cb have "h2 = h1" by (simp add: executeSyncCallback_def)
    with Inl show ?thesis by (simp add: finishSyncExecution_trace)
  next
    case (Inr i)
    with cb have "callExecuteOnDestContext env i h1 = ((cv, ce), h2)"
      by (simp add: executeSyncCallback_def)
    then have t: "trace h2 = trace h1 @ [EvExecuteOnDestContext i]"
      by (rule callExecuteOnDestContext_trace)
    from Inr have "Arguments i = returnCodeBytes (ReturnCode v) # ReturnData v"
      by (auto simp: createSyncCallbackInput_def callbackArguments_def Let_def split: if_splits)
    with Inr t show ?thesis by (simp add: finishSyncExecution_trace)
  qed
  have pr: "?c \<notin> set (AsyncCalls g')"
    if "executeAsyncCallGroup env g s h0 = (Inr None, hf, g')" for g s h0 hf g'
    using executeAsyncCallGroup_pruned [OF that] st by (auto simp: list_all_iff)
  from run st ex pr show ?thesis by (simp split: sum.splits)
qed

text \<open>The theorem at a concrete run.\<close>

theorem C6_remote_builtin_failure_witness:
  "determineAsyncCallExecutionMode ex_env ex_call_builtin_fail = (AsyncBuiltinFunc, None)
   \<and> fst (executeSyncCall ex_env ex_call_builtin_fail (ex_host 1000)) =
       (Some \<lparr>ReturnCode = 4, ReturnData = [], ReturnMessage = ''user error'', GasRemaining = 90\<rparr>, None)
   \<and> fst (executeAsyncCall ex_env ex_call_builtin_fail False (ex_host 1000)) = Inr None
   \<and> Status (snd (snd (executeAsyncCall ex_env ex_call_builtin_fail False (ex_host 1000)))) = ResolvedFailed"
proof -
  let ?v = "\<lparr>ReturnCode = 4, ReturnData = [], ReturnMessage = ''user error'', GasRemaining = 90\<rparr>"
  have m: "determineAsyncCallExecutionMode ex_env ex_call_builtin_fail = (AsyncBuiltinFunc, None)"
    by (simp add: run_defs ex_defs)
  obtain h1 where fwd: "executeSyncCall ex_env ex_call_builtin_fail (ex_host 1000) = ((Some ?v, None), h1)"
    by (simp add: run_defs ex_defs)
  have rc: "ReturnCode ?v \<noteq> Ok" by (simp add: Ok_def)
  from C6_remote_builtin_failure [OF m fwd rc] m fwd show ?thesis by simp
qed

text \<open>
  The built-in fails with return code 4 and the message \<open>user error\<close>; the callback runs
  with the single argument \<open>[0x04]\<close>.
\<close>

theorem C6_one_argument_counterexample:
  "map Arguments (executions (trace (fst (snd
       (executeAsyncCall ex_env ex_call_builtin_fail False (ex_host 1000)))))) =
     [[], [[CHR 0x04]]]
   \<and> ReturnMessage (the (fst (fst (executeSyncCall ex_env ex_call_builtin_fail (ex_host 1000))))) =
       ''user error''"
  by (simp add: run_defs ex_defs)

text \<open>
  Claim C7, as amended. For a call whose data cannot be parsed, classification fails with
  the parse error (next to the mode \<open>AsyncUnknown\<close>), and the per-call executor returns
  that error at once: the host state and the call are unchanged, so nothing is forwarded.
\<close>

theorem C7_parse_failure_returns:
  assumes "ParseData env (Data c) = Inl err"
  shows "determineAsyncCallExecutionMode env c = (AsyncUnknown, Some err) \<and>
         executeAsyncCall env c s h = (Inr (Some err), h, c)"
proof -
  from assms have "determineAsyncCallExecutionMode env c = (AsyncUnknown, Some err)"
    by (simp add: determineAsyncCallExecutionMode_def determineExecutionMode_def)
  then show ?thesis by (simp add: executeAsyncCall_parse_error)
qed

text \<open>The theorem at a concrete run.\<close>

theorem C7_parse_failure_returns_witness:
  "ParseData ex_env (Data ex_call_invalid) = Inl (ErrCollaborator ''invalid call data'')
   \<and> determineAsyncCallExecutionMode ex_env ex_call_invalid =
       (AsyncUnknown, Some (ErrCollaborator ''invalid call data''))
   \<and> executeAsyncCall ex_env ex_call_invalid False (ex_host 1000) =
       (Inr (Some (ErrCollaborator ''invalid call data'')), ex_host 1000, ex_call_invalid)"
proof -
  have p: "ParseData ex_env (Data ex_call_invalid) = Inl (ErrCollaborator ''invalid call data'')"
    by (simp add: ex_defs ex_parse_def ex_call_def)
  from C7_parse_failure_returns [OF p, of False "ex_host 1000"] p show ?thesis by simp
qed

text \<open>A call with unparsable data: the driver returns the parse error and no transfer is logged.\<close>

theorem C7_not_forwarded_counterexample:
  "fst (determineAsyncCallExecutionMode ex_env ex_call_invalid) = AsyncUnknown
   \<and> fst (executeCurrentAsyncContext ex_env ex_ctx_invalid (ex_host 1000)) =
       Inr (Some (ErrCollaborator ''invalid call data''))
   \<and> transfers (trace (fst (snd (executeCurrentAsyncContext ex_env ex_ctx_invalid (ex_host 1000))))) = []
   \<and> transfers (trace (fst (snd (executeAsyncCall ex_env ex_call_invalid False (ex_host 1000))))) = []"
  by (simp add: run_defs ex_defs)

text \<open>
  Claim C8, as amended. When the gas allocation at the entry of the driver fails with
  \<open>ErrNotEnoughGas\<close>, the driver returns that error with the host state unchanged (no
  call is executed, no transfer is appended, no storage write occurs), and the failed
  allocation has changed no field of any call other than its gas limit.
\<close>

theorem C8_allocation_failure_aborts:
  assumes "setupAsyncCallsGas env h ctx = (Some ErrNotEnoughGas, ctx1)"
  shows "executeCurrentAsyncContext env ctx h = (Inr (Some ErrNotEnoughGas), h, ctx1) \<and>
         contextGasLimitOnly ctx ctx1"
proof -
  have "\<not> context_IsCompleted ctx"
  proof
    assume "context_IsCompleted ctx"
    then have "setupAsyncCallsGas env h ctx = (None, ctx\<lparr>AsyncCallGroups := []\<rparr>)"
      by (simp add: context_IsCompleted_def setupAsyncCallsGas_def)
    with assms show False by simp
  qed
  with assms have "executeCurrentAsyncContext env ctx h = (Inr (Some ErrNotEnoughGas), h, ctx1)"
    by (simp add: executeCurrentAsyncContext_def)
  with setupAsyncCallsGas_failure_frame [OF assms] show ?thesis by simp
qed

text \<open>The theorem at a concrete run.\<close>

theorem C8_allocation_failure_aborts_witness:
  "fst (setupAsyncCallsGas ex_env (ex_host 5) ex_ctx_short) = Some ErrNotEnoughGas
   \<and> executeCurrentAsyncContext ex_env ex_ctx_short (ex_host 5) =
       (Inr (Some ErrNotEnoughGas), ex_host 5, snd (setupAsyncCallsGas ex_env (ex_host 5) ex_ctx_short))
   \<and> contextGasLimitOnly ex_ctx_short (snd (setupAsyncCallsGas ex_env (ex_host 5) ex_ctx_short))"
proof -
  have f: "fst (setupAsyncCallsGas ex_env (ex_host 5) ex_ctx_short) = Some ErrNotEnoughGas"
    by (simp add: run_defs ex_defs)
  then have "setupAsyncCallsGas ex_env (ex_host 5) ex_ctx_short =
      (Some ErrNotEnoughGas, snd (setupAsyncCallsGas ex_env (ex_host 5) ex_ctx_short))"
    by (simp add: prod_eq_iff)
  from C8_allocation_failure_aborts [OF this] f show ?thesis by simp
qed

text \<open>The allocation fails after it has written the gas limit of the first call.\<close>

theorem C8_gas_limit_modified_counterexample:
  "fst (executeCurrentAsyncContext ex_env ex_ctx_short (ex_host 5)) = Inr (Some ErrNotEnoughGas)
   \<and> map GasLimit (allCalls (AsyncCallGroups ex_ctx_short)) = [0, 0]
   \<and> map GasLimit (allCalls (AsyncCallGroups
        (snd (snd (executeCurrentAsyncContext ex_env ex_ctx_short (ex_host 5)))))) = [5, 0]"
  by (simp add: run_defs ex_defs allCalls_def)

text \<open>
  Claim C9. For a context whose groups have distinct identifiers, whenever the driver
  writes to storage it writes once, the serialization of the context it returns, and this
  context has no group with the identifier \<open>LegacyAsyncCallGroupID\<close>.
\<close>

theorem C9_no_legacy_group_persisted:
  assumes "distinct (map Identifier (AsyncCallGroups ctx))"
    and "executeCurrentAsyncContext env ctx h = (r, h', ctx')"
  shows "storageWrites (trace h') = storageWrites (trace h) \<or>
         (\<exists>data. Marshal env ctx' = Inr data \<and>
            storageWrites (trace h') =
              storageWrites (trace h) @
                [(CustomStorageKey (AsyncDataPrefix env) (GetPrevTxHash env), data)] \<and>
            LegacyAsyncCallGroupID env \<notin> Identifier ` set (AsyncCallGroups ctx'))"
proof -
  from executeCurrentAsyncContext_cases [OF assms(2)]
  consider (same) "h' = h"
    | (sweep1) ctx1 :: AsyncContext and gs1 r1 where
        "sweepSync env (AsyncCallGroups ctx1) h = (r1, h', gs1)"
    | (sweep2) ctx1 ctx2 :: AsyncContext and h1 gs1 gs2 r2 where
        "sweepSync env (AsyncCallGroups ctx1) h = (Inr None, h1, gs1)"
        "sweepAsync env (AsyncCallGroups ctx2) h1 = (r2, h', gs2)"
    | (saved) ctx1 h1 gs1 ctx2 h2 gs2 e where
        "setupAsyncCallsGas env h ctx = (None, ctx1)"
        "sweepSync env (AsyncCallGroups ctx1) h = (Inr None, h1, gs1)"
        "setupAsyncCallsGas env h1 (ctx1\<lparr>AsyncCallGroups := gs1\<rparr>) = (None, ctx2)"
        "sweepAsync env (AsyncCallGroups ctx2) h1 = (Inr None, h2, gs2)"
        "ctx' = DeleteAsyncCallGroupByID (LegacyAsyncCallGroupID env) (ctx2\<lparr>AsyncCallGroups := gs2\<rparr>)"
        "saveAsyncContext env ctx' h2 = (e, h')"
    by (elim disjE exE conjE) blast+
  then show ?thesis
  proof cases
    case same
    then show ?thesis by simp
  next
    case sweep1
    from sweepSync_facts [OF sweep1] show ?thesis by simp
  next
    case sweep2
    from sweepSync_facts [OF sweep2(1)] sweepAsync_facts [OF sweep2(2)] show ?thesis by simp
  next
    case saved
    from sweepSync_facts [OF saved(2)] sweepAsync_facts [OF saved(4)]
    have w: "storageWrites (trace h2) = storageWrites (trace h)" by simp
    have "distinct (map Identifier (AsyncCallGroups ctx1))"
      using setupAsyncCallsGas_Identifier [OF saved(1)] assms(1) by simp
    with sweepSync_facts [OF saved(2)] have "distinct (map Identifier gs1)" by simp
    with setupAsyncCallsGas_Identifier [OF saved(3)]
    have "distinct (map Identifier (AsyncCallGroups ctx2))" by simp
    with sweepAsync_facts [OF saved(4)] have "distinct (map Identifier gs2)" by simp
    then have "LegacyAsyncCallGroupID env \<notin> Identifier ` set (AsyncCallGroups ctx')"
      unfolding saved(5) DeleteAsyncCallGroupByID_def
      using deleteGroupByID_absent [of gs2 "LegacyAsyncCallGroupID env"] by simp
    with saveAsyncContext_writes [OF saved(6)] w show ?thesis by auto
  qed
qed

text \<open>The theorem at a concrete run.\<close>

theorem C9_no_legacy_group_persisted_witness:
  "distinct (map Identifier (AsyncCallGroups ex_ctx_legacy))
   \<and> storageWrites (trace (fst (snd (executeCurrentAsyncContext ex_env ex_ctx_legacy (ex_host 1000))))) =
       [(''ASYNCprev'', ''g'')]
   \<and> ''Legacy'' \<notin> Identifier ` set (AsyncCallGroups
         (snd (snd (executeCurrentAsyncContext ex_env ex_ctx_legacy (ex_host 1000)))))"
proof -
  have d: "distinct (map Identifier (AsyncCallGroups ex_ctx_legacy))"
    by (simp add: ex_defs ex_context_def ex_group_def)
  obtain r H C where run: "executeCurrentAsyncContext ex_env ex_ctx_legacy (ex_host 1000) = (r, H, C)"
    by (cases "executeCurrentAsyncContext ex_env ex_ctx_legacy (ex_host 1000)") auto
  from run have w: "storageWrites (trace H) = [(''ASYNCprev'', ''g'')]"
    by (auto simp: run_defs ex_defs)
  from C9_no_legacy_group_persisted [OF d run] w
  have "''Legacy'' \<notin> Identifier ` set (AsyncCallGroups C)"
    by (simp add: ex_host_def)
  with d run w show ?thesis by simp
qed

text \<open>
  Claim C10, as amended. The data length is the length of the callback name plus the number
  of arguments plus the sum of the argument lengths; one separator is counted per argument,
  which makes it the length of the flat encoding for every argument list, the empty one
  included. The fee is \<open>AsyncCallStep + DataCopyPerByte * dataLength\<close> in 64-bit
  arithmetic: the builder fails with \<open>ErrNotEnoughGas\<close> when the available gas does not
  exceed it, and otherwise provides the available gas less the fee.
\<close>

theorem C10_callback_data_length_and_fee:
  "computeDataLengthFromArguments f args = length f + length args + sum_list (map length args)
   \<and> computeDataLengthFromArguments f args = length (flatEncoding f args)
   \<and> (case createSyncCallbackInput env c v e of
         Inl err \<Rightarrow>
           err = ErrNotEnoughGas \<and>
           GasRemaining v + GasLocked c \<le>
             AsyncCallStep env + DataCopyPerByte env *
               of_nat (computeDataLengthFromArguments (GetCallbackName c) (callbackArguments v e))
       | Inr i \<Rightarrow>
           Function i = GetCallbackName c \<and> Arguments i = callbackArguments v e \<and>
           GasProvided i =
             GasRemaining v + GasLocked c -
               (AsyncCallStep env + DataCopyPerByte env *
                  of_nat (computeDataLengthFromArguments (GetCallbackName c) (callbackArguments v e))))"
  by (simp add: computeDataLengthFromArguments_def computeDataLength_foldl length_flatEncoding
      createSyncCallbackInput_def callbackGasToUse_def Let_def)

text \<open>
  With no arguments the data length is the length of the function name, which is the length
  of the flat encoding and not one more.
\<close>

theorem C10_no_overcount_counterexample:
  "computeDataLengthFromArguments ''callBack'' [] = length ''callBack''
   \<and> computeDataLengthFromArguments ''callBack'' [] \<noteq> length (flatEncoding ''callBack'' []) + 1"
  by (simp add: computeDataLengthFromArguments_def flatEncoding_def)

end
